theory Spec2Isabelle
  imports Complex_Main "HOL-Library.Char_ord" "HOL-Library.List_Lexorder"
begin

section \<open>Python values and strings\<close>

text \<open>
  The values that flow through \<^verbatim>\<open>garak/generators/openai.py\<close>: configuration
  attributes, prompts and the keyword arguments of the \<^verbatim>\<open>create\<close> call. Floats are
  only passed through (never computed on), so their payload is a real number. A dict is an
  association list in insertion order.
\<close>

datatype pyval =
    PyNone
  | PyBool bool
  | PyInt int
  | PyFloat real
  | PyStr string
  | PyList "pyval list"
  | PyDict "(string \<times> pyval) list"

type_synonym kwargs = "(string \<times> pyval) list"

text \<open>\<^verbatim>\<open>isinstance(v, str)\<close> and \<^verbatim>\<open>isinstance(v, list)\<close>.\<close>

fun isinstance_str :: "pyval \<Rightarrow> bool" where
  "isinstance_str (PyStr s) = True"
| "isinstance_str v = False"

fun isinstance_list :: "pyval \<Rightarrow> bool" where
  "isinstance_list (PyList xs) = True"
| "isinstance_list v = False"

text \<open>
  \<^verbatim>\<open>s.split(c)\<close> for a one-character separator: every occurrence splits, and the
  result is never empty (\<^verbatim>\<open>"".split("-") == [""]\<close>).
\<close>

fun split_on :: "char \<Rightarrow> string \<Rightarrow> string list" where
  "split_on c [] = [[]]"
| "split_on c (x # xs) =
     (if x = c then [] # split_on c xs
      else (case split_on c xs of
              [] \<Rightarrow> [[x]]
            | w # ws \<Rightarrow> (x # w) # ws))"

text \<open>\<^verbatim>\<open>sep.join(ws)\<close>.\<close>

fun join :: "string \<Rightarrow> string list \<Rightarrow> string" where
  "join sep [] = []"
| "join sep [w] = w"
| "join sep (w # v # ws) = w @ sep @ join sep (v # ws)"

definition is_digit :: "char \<Rightarrow> bool" where
  "is_digit c = (c \<in> set ''0123456789'')"

text \<open>
  \<^verbatim>\<open>re.match(r"^.+-[01][0-9][0-3][0-9]$", s)\<close>, as a truth value. Without flags,
  \<^verbatim>\<open>.\<close> matches every character but a newline, and \<^verbatim>\<open>$\<close> matches at the end of the
  string and also just before a newline that ends the string. \<open>match_dated_at_end\<close> is
  the match whose \<^verbatim>\<open>$\<close> is the very end: the last five characters are the hyphen and
  the four digits, and what precedes them is non-empty and free of newlines.
\<close>

definition match_dated_at_end :: "string \<Rightarrow> bool" where
  "match_dated_at_end s =
     (5 < length s \<and> CHR 10 \<notin> set (take (length s - 5) s) \<and>
      (case drop (length s - 5) s of
         [h, a, b, c, d] \<Rightarrow>
           h = CHR ''-'' \<and> a \<in> set ''01'' \<and> is_digit b \<and> c \<in> set ''0123'' \<and> is_digit d
       | _ \<Rightarrow> False))"

definition re_match_dated :: "string \<Rightarrow> bool" where
  "re_match_dated s =
     (match_dated_at_end s \<or>
      (s \<noteq> [] \<and> last s = CHR 10 \<and> match_dated_at_end (butlast s)))"

section \<open>Model tables\<close>

definition chat_models :: "string list" where
  "chat_models =
     [''gpt-4'', ''gpt-4-turbo'', ''gpt-4o'', ''gpt-4o-mini'', ''gpt-4-turbo-preview'',
      ''gpt-3.5-turbo'', ''gpt-4-32k'', ''gpt-4-0125-preview'', ''gpt-4-1106-preview'',
      ''gpt-4-vision-preview'', ''gpt-4-1106-vision-preview'', ''gpt-4-0613'',
      ''gpt-4-32k'', ''gpt-4-32k-0613'', ''gpt-3.5-turbo-0125'', ''gpt-3.5-turbo-1106'',
      ''gpt-3.5-turbo-16k'', ''gpt-3.5-turbo-0613'', ''gpt-3.5-turbo-16k-0613'']"

definition completion_models :: "string list" where
  "completion_models =
     [''gpt-3.5-turbo-instruct'', ''davinci-002'', ''babbage-002'',
      ''davinci-instruct-beta'']"

definition context_lengths :: "(string \<times> int) list" where
  "context_lengths =
     [(''gpt-3.5-turbo-0125'', 16385), (''gpt-3.5-turbo'', 16385),
      (''gpt-3.5-turbo-1106'', 16385), (''gpt-3.5-turbo-instruct'', 4096),
      (''gpt-3.5-turbo-16k'', 16385), (''gpt-3.5-turbo-0613'', 4096),
      (''gpt-3.5-turbo-16k-0613'', 16385), (''babbage-002'', 16384),
      (''davinci-002'', 16384), (''gpt-4-turbo'', 128000),
      (''gpt-4-turbo-2024-04-09'', 128000), (''gpt-4-turbo-preview'', 128000),
      (''gpt-4-0125-preview'', 128000), (''gpt-4-1106-preview'', 128000),
      (''gpt-4-vision-preview'', 128000), (''gpt-4-1106-vision-preview'', 128000),
      (''gpt-4'', 8192), (''gpt-4-0613'', 8192), (''gpt-4-32k'', 32768),
      (''gpt-4-32k-0613'', 32768)]"

section \<open>The generator instance\<close>

text \<open>
  \<^verbatim>\<open>self.generator\<close> is one of the two endpoint objects of the client,
  \<^verbatim>\<open>client.chat.completions\<close> or \<^verbatim>\<open>client.completions\<close>, or \<^verbatim>\<open>None\<close>. The source
  tells them apart by comparing with the attributes of the current client; both are always
  assigned together with the client, so the endpoint is modelled by its tag.
\<close>

datatype endpoint = Chat | Completion

datatype client_handle = OpenAI (handle_api_key: string)

text \<open>
  Every exception of the module: the two \<^verbatim>\<open>ValueError\<close>s of \<^verbatim>\<open>_load_client\<close>, the one
  of \<^verbatim>\<open>__init__\<close>, the faults of the network call, the retry trigger, and the
  \<^verbatim>\<open>AttributeError\<close> of calling \<^verbatim>\<open>create\<close> on \<^verbatim>\<open>None\<close>.
\<close>

datatype error =
    ModelNameRequired "string list"
  | NoAPIDefined string
  | UnsupportedModel
  | RateLimitError
  | InternalServerError
  | APITimeoutError
  | APIConnectionError
  | BadRequestError
  | JSONDecodeError
  | GarakBackoffTrigger
  | AttributeError
  | OtherError string

text \<open>
  The attributes of an instance. The configuration attributes are populated by
  \<^verbatim>\<open>_load_config\<close> from \<^verbatim>\<open>DEFAULT_PARAMS\<close> and the configuration (outside this
  module); they are fields the constructor receives.
\<close>

record gen =
  name :: string
  api_key :: string
  context_len :: "int option"
  temperature :: pyval
  max_tokens :: pyval
  top_p :: pyval
  frequency_penalty :: pyval
  presence_penalty :: pyval
  stop :: pyval
  seed :: pyval
  suppressed_params :: "string set"
  retry_json :: bool
  client :: "client_handle option"
  generator :: "endpoint option"

text \<open>
  What \<^verbatim>\<open>client.models.list()\<close> does when it is called: the exception it raises or
  the model ids it returns.
\<close>

type_synonym listing = "error + string list"

text \<open>
  \<^verbatim>\<open>OpenAIGenerator._load_client\<close>. The models are listed only when the name is
  empty. The client is assigned before anything can raise, so the state is returned with
  the error.
\<close>

definition load_client :: "listing \<Rightarrow> gen \<Rightarrow> error option \<times> gen" where
  "load_client models_list g =
     (let g1 = g\<lparr>client := Some (OpenAI (api_key g))\<rparr> in
      if name g1 = [] then
        (case models_list of
           Inl e \<Rightarrow> (Some e, g1)
         | Inr ids \<Rightarrow> (Some (ModelNameRequired (sort ids)), g1))
      else if name g1 \<in> set completion_models
        then (None, g1\<lparr>generator := Some Completion\<rparr>)
      else if name g1 \<in> set chat_models
        then (None, g1\<lparr>generator := Some Chat\<rparr>)
      else if join ''-'' (butlast (split_on CHR ''-'' (name g1))) \<in> set chat_models
              \<and> re_match_dated (name g1)
        then (None, g1\<lparr>generator := Some Completion\<rparr>)
      else (Some (NoAPIDefined (name g1)), g1))"

text \<open>\<^verbatim>\<open>OpenAIGenerator._clear_client\<close>.\<close>

definition clear_client :: "gen \<Rightarrow> gen" where
  "clear_client g = g\<lparr>generator := None, client := None\<rparr>"

text \<open>
  \<^verbatim>\<open>__getstate__\<close> clears the client of the live instance and returns a copy of its
  attributes: the pickled state and the instance afterwards.
\<close>

definition getstate :: "gen \<Rightarrow> gen \<times> gen" where
  "getstate g = (let g1 = clear_client g in (g1, g1))"

text \<open>
  \<^verbatim>\<open>__setstate__\<close> on the blank instance pickle creates: the attributes are those of
  the pickled state, then \<^verbatim>\<open>_load_client\<close> runs.
\<close>

definition setstate :: "listing \<Rightarrow> gen \<Rightarrow> error option \<times> gen" where
  "setstate models_list d = load_client models_list d"

text \<open>
  \<^verbatim>\<open>OpenAIGenerator.__init__\<close> followed by \<^verbatim>\<open>OpenAICompatible.__init__\<close>: the name
  is stored, the context length looked up, the client loaded, the endpoint checked, and the
  client cleared again. \<^verbatim>\<open>_validate_config\<close> does nothing; the initialiser of the base
  class \<^verbatim>\<open>Generator\<close> is outside this module.
\<close>

definition init :: "listing \<Rightarrow> string \<Rightarrow> gen \<Rightarrow> error + gen" where
  "init models_list nm g0 =
     (let g1 = g0\<lparr>name := nm\<rparr>;
          g2 = (case map_of context_lengths nm of
                  Some l \<Rightarrow> g1\<lparr>context_len := Some l\<rparr>
                | None \<Rightarrow> g1)
      in case load_client models_list g2 of
           (Some e, g3) \<Rightarrow> Inl e
         | (None, g3) \<Rightarrow>
             (case generator g3 of
                None \<Rightarrow> Inl UnsupportedModel
              | Some ep \<Rightarrow> Inr (clear_client g3)))"

section \<open>Assembling the request\<close>

text \<open>The dict literal of \<^verbatim>\<open>_call_model\<close>, in the order it is written.\<close>

definition create_args :: "gen \<Rightarrow> pyval \<Rightarrow> kwargs" where
  "create_args g generations_this_call =
     [(''model'', PyStr (name g)),
      (''temperature'', temperature g),
      (''max_tokens'', max_tokens g),
      (''n'', generations_this_call),
      (''top_p'', top_p g),
      (''frequency_penalty'', frequency_penalty g),
      (''presence_penalty'', presence_penalty g),
      (''stop'', stop g),
      (''seed'', seed g)]"

text \<open>
  The comprehension
  \<^verbatim>\<open>{k: v for k, v in create_args.items() if v is not None and k not in self.suppressed_params}\<close>.
\<close>

definition filter_args :: "gen \<Rightarrow> kwargs \<Rightarrow> kwargs" where
  "filter_args g args = filter (\<lambda>(k, v). v \<noteq> PyNone \<and> k \<notin> suppressed_params g) args"

text \<open>\<^verbatim>\<open>d[k] = v\<close>: an existing key keeps its place, a new key goes last.\<close>

fun dict_set :: "string \<Rightarrow> pyval \<Rightarrow> kwargs \<Rightarrow> kwargs" where
  "dict_set k v [] = [(k, v)]"
| "dict_set k v ((k', v') # kvs) =
     (if k' = k then (k, v) # kvs else (k', v') # dict_set k v kvs)"

text \<open>
  The two branches on \<^verbatim>\<open>self.generator\<close> that attach the prompt. \<open>None\<close> is the
  early \<^verbatim>\<open>return list()\<close> of a prompt of the wrong shape. When the generator is neither
  endpoint, no branch runs and the arguments go on unchanged.
\<close>

definition add_prompt :: "gen \<Rightarrow> pyval \<Rightarrow> kwargs \<Rightarrow> kwargs option" where
  "add_prompt g prompt args =
     (if generator g = Some Completion then
        (if \<not> isinstance_str prompt then None
         else Some (dict_set ''prompt'' prompt args))
      else if generator g = Some Chat then
        (if isinstance_str prompt then
           Some (dict_set ''messages''
                   (PyList [PyDict [(''role'', PyStr ''user''), (''content'', prompt)]]) args)
         else if isinstance_list prompt then Some (dict_set ''messages'' prompt args)
         else None)
      else Some args)"

section \<open>One execution of the body of \<^verbatim>\<open>_call_model\<close>\<close>

text \<open>
  A choice of a response carries \<^verbatim>\<open>text\<close> (completions) and
  \<^verbatim>\<open>message.content\<close> (chat); the body reads the one of its endpoint.
\<close>

record choice =
  text_of :: "string option"
  message_content :: "string option"

type_synonym outcome = "error + choice list"

type_synonym generation_result = "string option list"

definition ensure_client :: "listing \<Rightarrow> gen \<Rightarrow> error option \<times> gen" where
  "ensure_client models_list g =
     (if client g = None then load_client models_list g else (None, g))"

text \<open>The two comprehensions over \<^verbatim>\<open>response.choices\<close>.\<close>

definition extract_choices :: "endpoint \<Rightarrow> choice list \<Rightarrow> generation_result" where
  "extract_choices ep choices =
     (case ep of
        Completion \<Rightarrow> map text_of choices
      | Chat \<Rightarrow> map message_content choices)"

text \<open>
  The \<^verbatim>\<open>try\<close> around \<^verbatim>\<open>self.generator.create(**create_args)\<close> and the final
  comprehension: a bad request is logged and answered with \<^verbatim>\<open>[None]\<close>, a JSON decode
  error is raised again as the retry trigger when \<^verbatim>\<open>retry_json\<close> is set and as itself
  otherwise, every other exception passes.
\<close>

definition handle_outcome :: "gen \<Rightarrow> endpoint \<Rightarrow> outcome \<Rightarrow> error + generation_result" where
  "handle_outcome g ep outcome =
     (case outcome of
        Inl e \<Rightarrow>
          (if e = BadRequestError then Inr [None]
           else if e = JSONDecodeError then
             (if retry_json g then Inl GarakBackoffTrigger else Inl JSONDecodeError)
           else Inl e)
      | Inr choices \<Rightarrow> Inr (extract_choices ep choices))"

text \<open>
  The body, given what the network call does if it is reached: it returns the value
  returned or the exception raised, the keyword arguments of the network call if one was
  made, and the instance.
\<close>

definition call_model_body ::
  "listing \<Rightarrow> outcome \<Rightarrow> pyval \<Rightarrow> pyval \<Rightarrow> gen
     \<Rightarrow> (error + generation_result) \<times> kwargs option \<times> gen" where
  "call_model_body models_list outcome prompt generations_this_call g =
     (case ensure_client models_list g of
        (Some e, g1) \<Rightarrow> (Inl e, None, g1)
      | (None, g1) \<Rightarrow>
          (case add_prompt g1 prompt (filter_args g1 (create_args g1 generations_this_call)) of
             None \<Rightarrow> (Inr [], None, g1)
           | Some args \<Rightarrow>
               (case generator g1 of
                  None \<Rightarrow> (Inl AttributeError, None, g1)
                | Some ep \<Rightarrow> (handle_outcome g1 ep outcome, Some args, g1))))"

section \<open>The retry decorator\<close>

text \<open>
  \<^verbatim>\<open>backoff.fibo(max_value)\<close> as a step on the generator's two variables: the value
  yielded and the variables afterwards.
\<close>

definition fibo_next :: "nat \<Rightarrow> nat \<times> nat \<Rightarrow> nat \<times> (nat \<times> nat)" where
  "fibo_next max_value ab =
     (case ab of (a, b) \<Rightarrow>
        if a < max_value then (a, (b, a + b)) else (max_value, (a, b)))"

text \<open>
  The decorator is given no \<^verbatim>\<open>jitter\<close>, so the library's default applies:
  \<^verbatim>\<open>full_jitter(value) = random.uniform(0, value)\<close>, that is the value times a draw of
  \<^verbatim>\<open>random.random()\<close>.
\<close>

definition full_jitter :: "real \<Rightarrow> nat \<Rightarrow> real" where
  "full_jitter draw v = real v * draw"

text \<open>The exception classes listed in the decorator.\<close>

definition retried :: "error \<Rightarrow> bool" where
  "retried e =
     (e = RateLimitError \<or> e = InternalServerError \<or> e = APITimeoutError \<or>
      e = APIConnectionError \<or> e = GarakBackoffTrigger)"

definition list_of_option :: "'a option \<Rightarrow> 'a list" where
  "list_of_option x = (case x of None \<Rightarrow> [] | Some a \<Rightarrow> [a])"

text \<open>
  \<^verbatim>\<open>backoff.on_exception(backoff.fibo, (...), max_value=70)\<close> around the body: no
  bound on tries or time, so the loop ends only when the body returns or raises an
  exception that is not listed. \<open>net i\<close> is what the network call of try \<open>i\<close> does,
  \<open>draws i\<close> the random draw of the wait after try \<open>i\<close>. The loop carries the
  variables of the wait generator, the durations slept so far and the keyword arguments of
  the network calls made so far.
\<close>

partial_function (option) retry ::
  "listing \<Rightarrow> (nat \<Rightarrow> outcome) \<Rightarrow> (nat \<Rightarrow> real) \<Rightarrow> pyval \<Rightarrow> pyval
     \<Rightarrow> nat \<Rightarrow> nat \<times> nat \<Rightarrow> real list \<Rightarrow> kwargs list \<Rightarrow> gen
     \<Rightarrow> ((error + generation_result) \<times> real list \<times> kwargs list \<times> gen) option" where
  "retry models_list net draws prompt n i ab sleeps sent g =
     (case call_model_body models_list (net i) prompt n g of
        (Inr r, req, g1) \<Rightarrow> Some (Inr r, sleeps, sent @ list_of_option req, g1)
      | (Inl e, req, g1) \<Rightarrow>
          (if retried e then
             (case fibo_next 70 ab of
                (v, ab1) \<Rightarrow>
                  retry models_list net draws prompt n (Suc i) ab1
                    (sleeps @ [full_jitter (draws i) v]) (sent @ list_of_option req) g1)
           else Some (Inl e, sleeps, sent @ list_of_option req, g1)))"

text \<open>The decorated \<^verbatim>\<open>_call_model\<close>: the loop from its first try.\<close>

definition call_model ::
  "listing \<Rightarrow> (nat \<Rightarrow> outcome) \<Rightarrow> (nat \<Rightarrow> real) \<Rightarrow> pyval \<Rightarrow> pyval \<Rightarrow> gen
     \<Rightarrow> ((error + generation_result) \<times> real list \<times> kwargs list \<times> gen) option" where
  "call_model models_list net draws prompt n g =
     retry models_list net draws prompt n 0 (1, 1) [] [] g"


section \<open>An instance with the default parameters\<close>

text \<open>
  The attributes of an instance configured with nothing but
  \<^verbatim>\<open>OpenAICompatible.DEFAULT_PARAMS\<close>, before \<^verbatim>\<open>__init__\<close> has run. The token limit
  comes from the defaults of the base class, which this module does not show: 150 is
  taken here.
\<close>

definition default_params :: gen where
  "default_params =
     \<lparr>name = [], api_key = ''sk'', context_len = None,
      temperature = PyFloat 0.7, max_tokens = PyInt 150, top_p = PyFloat 1.0,
      frequency_penalty = PyFloat 0.0, presence_penalty = PyFloat 0.0,
      stop = PyList [PyStr ''#'', PyStr '';''], seed = PyNone,
      suppressed_params = {}, retry_json = True, client = None, generator = None\<rparr>"

section \<open>The router as the specification words it\<close>

text \<open>
  The specification's dated-suffix rule, read literally: the name is a chat-model name, a
  hyphen, and a suffix of exactly four digits, the first 0 or 1 and the third 0 to 3.
\<close>

definition month_day_like :: "string \<Rightarrow> bool" where
  "month_day_like sfx =
     (case sfx of
        [a, b, c, d] \<Rightarrow> a \<in> set ''01'' \<and> is_digit b \<and> c \<in> set ''0123'' \<and> is_digit d
      | _ \<Rightarrow> False)"

definition spec_dated_snapshot :: "string \<Rightarrow> bool" where
  "spec_dated_snapshot nm =
     (\<exists>base \<in> set chat_models.
        take (length base + 1) nm = base @ ''-'' \<and> month_day_like (drop (length base + 1) nm))"

text \<open>The four steps of the specification's router, in its order.\<close>

definition spec_router :: "string \<Rightarrow> error + endpoint" where
  "spec_router nm =
     (if nm \<in> set completion_models then Inr Completion
      else if nm \<in> set chat_models then Inr Chat
      else if spec_dated_snapshot nm then Inr Completion
      else Inl (NoAPIDefined nm))"

section \<open>Wait values and example runs\<close>

text \<open>The first \<open>k\<close> values the wait generator yields from given variables.\<close>

fun fibo_waits :: "nat \<Rightarrow> nat \<times> nat \<Rightarrow> nat \<Rightarrow> nat list" where
  "fibo_waits max_value ab 0 = []"
| "fibo_waits max_value ab (Suc k) =
     (case fibo_next max_value ab of (v, ab1) \<Rightarrow> v # fibo_waits max_value ab1 k)"

text \<open>
  The durations slept when the waits \<open>vs\<close> are jittered with the draws from \<open>i\<close> on.
\<close>

definition jittered :: "(nat \<Rightarrow> real) \<Rightarrow> nat \<Rightarrow> nat list \<Rightarrow> real list" where
  "jittered draws i vs =
     map (\<lambda>(j, v). full_jitter (draws j) v) (zip [i..<i + length vs] vs)"

text \<open>A response with one choice, and network scripts used in the examples below.\<close>

definition one_choice :: "choice list" where
  "one_choice = [\<lparr>text_of = Some ''ok'', message_content = Some ''ok''\<rparr>]"

definition rate_limited_twice :: "nat \<Rightarrow> outcome" where
  "rate_limited_twice i = (if i < 2 then Inl RateLimitError else Inr one_choice)"

definition bad_request_always :: "nat \<Rightarrow> outcome" where
  "bad_request_always i = Inl BadRequestError"

definition decode_error_once :: "nat \<Rightarrow> outcome" where
  "decode_error_once i = (if i = 0 then Inl JSONDecodeError else Inr one_choice)"

definition shrinking_draws :: "nat \<Rightarrow> real" where
  "shrinking_draws i = (if i = 0 then 1 / 2 else 1 / 4)"

text \<open>
  An instance for \<^verbatim>\<open>gpt-4\<close> with the default parameters, and the keyword arguments
  it sends for the prompt \<^verbatim>\<open>"hi"\<close> and \<open>k\<close> generations.
\<close>

definition gpt4_instance :: gen where
  "gpt4_instance = default_params\<lparr>name := ''gpt-4''\<rparr>"

definition hi_request :: "int \<Rightarrow> kwargs" where
  "hi_request k =
     [(''model'', PyStr ''gpt-4''), (''temperature'', PyFloat 0.7), (''max_tokens'', PyInt 150),
      (''n'', PyInt k), (''top_p'', PyFloat 1.0), (''frequency_penalty'', PyFloat 0.0),
      (''presence_penalty'', PyFloat 0.0), (''stop'', PyList [PyStr ''#'', PyStr '';'']),
      (''messages'', PyList [PyDict [(''role'', PyStr ''user''), (''content'', PyStr ''hi'')]])]"


section \<open>Routing a model name\<close>

subsection \<open>Splitting and joining\<close>

lemma split_on_nonempty: "split_on c s \<noteq> []"
  by (induction s) (auto split: list.splits)

lemma split_on_no_sep: "c \<notin> set t \<Longrightarrow> split_on c t = [t]"
  by (induction t) auto

lemma split_on_append: "split_on c (p @ c # t) = split_on c p @ split_on c t"
proof (induction p)
  case Nil
  show ?case by simp
next
  case (Cons x p)
  show ?case
  proof (cases "x = c")
    case True
    with Cons show ?thesis by simp
  next
    case False
    obtain w ws where sp: "split_on c p = w # ws"
      using split_on_nonempty [of c p] by (cases "split_on c p") auto
    with Cons False show ?thesis by simp
  qed
qed

lemma join_split_on: "join [c] (split_on c s) = s"
proof (induction s)
  case Nil
  show ?case by simp
next
  case (Cons x s)
  obtain w ws where sp: "split_on c s = w # ws"
    using split_on_nonempty [of c s] by (cases "split_on c s") auto
  show ?case
  proof (cases "x = c")
    case True
    with Cons sp show ?thesis by simp
  next
    case False
    with Cons sp show ?thesis by (cases ws) auto
  qed
qed

lemma strip_last_segment:
  assumes "c \<notin> set t"
  shows "join [c] (butlast (split_on c (p @ c # t))) = p"
  using assms by (simp add: split_on_append split_on_no_sep join_split_on butlast_append)

subsection \<open>The regular expression and the dated-suffix rule\<close>

lemma match_dated_at_end_iff:
  "match_dated_at_end s \<longleftrightarrow>
     (\<exists>p sfx. s = p @ CHR ''-'' # sfx \<and> p \<noteq> [] \<and> CHR 10 \<notin> set p \<and> month_day_like sfx)"
proof
  assume m: "match_dated_at_end s"
  let ?p = "take (length s - 5) s"
  let ?t = "drop (length s - 5) s"
  from m obtain h a b c d where t: "?t = [h, a, b, c, d]"
    unfolding match_dated_at_end_def by (auto split: list.splits)
  from m t have "h = CHR ''-''" and "month_day_like [a, b, c, d]"
    and "CHR 10 \<notin> set ?p" and "5 < length s"
    unfolding match_dated_at_end_def month_day_like_def by auto
  moreover from \<open>5 < length s\<close> have "?p \<noteq> []" by auto
  moreover have "s = ?p @ ?t" by simp
  ultimately have "s = ?p @ CHR ''-'' # [a, b, c, d] \<and> ?p \<noteq> [] \<and> CHR 10 \<notin> set ?p
      \<and> month_day_like [a, b, c, d]"
    using t by simp
  then show "\<exists>p sfx. s = p @ CHR ''-'' # sfx \<and> p \<noteq> [] \<and> CHR 10 \<notin> set p \<and> month_day_like sfx"
    by blast
next
  assume "\<exists>p sfx. s = p @ CHR ''-'' # sfx \<and> p \<noteq> [] \<and> CHR 10 \<notin> set p \<and> month_day_like sfx"
  then obtain p sfx where s: "s = p @ CHR ''-'' # sfx" and p: "p \<noteq> []" "CHR 10 \<notin> set p"
    and md: "month_day_like sfx" by blast
  from md obtain a b c d where sfx: "sfx = [a, b, c, d]"
    unfolding month_day_like_def by (auto split: list.splits)
  from p have "0 < length p" by simp
  with s sfx p md show "match_dated_at_end s"
    unfolding match_dated_at_end_def month_day_like_def by simp
qed


lemma month_day_like_no_hyphen: "month_day_like sfx \<Longrightarrow> CHR ''-'' \<notin> set sfx"
  unfolding month_day_like_def is_digit_def by (auto split: list.splits)

lemma chat_models_plain: "base \<in> set chat_models \<Longrightarrow> base \<noteq> [] \<and> CHR 10 \<notin> set base"
  unfolding chat_models_def by auto

lemma dated_heuristic_iff:
  assumes "last nm \<noteq> CHR 10"
  shows "join ''-'' (butlast (split_on CHR ''-'' nm)) \<in> set chat_models \<and> re_match_dated nm
           \<longleftrightarrow> spec_dated_snapshot nm"
proof
  assume code: "join ''-'' (butlast (split_on CHR ''-'' nm)) \<in> set chat_models \<and> re_match_dated nm"
  with assms have "match_dated_at_end nm" unfolding re_match_dated_def by auto
  then obtain p sfx where nm: "nm = p @ CHR ''-'' # sfx" and md: "month_day_like sfx"
    unfolding match_dated_at_end_iff by blast
  from md have "join ''-'' (butlast (split_on CHR ''-'' nm)) = p"
    unfolding nm by (intro strip_last_segment month_day_like_no_hyphen)
  with code have "p \<in> set chat_models" by simp
  moreover from nm md have "take (length p + 1) nm = p @ ''-''"
    and "month_day_like (drop (length p + 1) nm)" by simp_all
  ultimately show "spec_dated_snapshot nm" unfolding spec_dated_snapshot_def by blast
next
  assume "spec_dated_snapshot nm"
  then obtain base where base: "base \<in> set chat_models"
    and tk: "take (length base + 1) nm = base @ ''-''"
    and md: "month_day_like (drop (length base + 1) nm)"
    unfolding spec_dated_snapshot_def by blast
  let ?sfx = "drop (length base + 1) nm"
  have "nm = take (length base + 1) nm @ ?sfx" by simp
  with tk have nm: "nm = base @ CHR ''-'' # ?sfx" by simp
  from md have "join ''-'' (butlast (split_on CHR ''-'' (base @ CHR ''-'' # ?sfx))) = base"
    by (intro strip_last_segment month_day_like_no_hyphen)
  with nm have "join ''-'' (butlast (split_on CHR ''-'' nm)) = base" by simp
  moreover from nm md chat_models_plain [OF base] have "match_dated_at_end nm"
    unfolding match_dated_at_end_iff by blast
  ultimately show "join ''-'' (butlast (split_on CHR ''-'' nm)) \<in> set chat_models \<and> re_match_dated nm"
    using base unfolding re_match_dated_def by simp
qed

text \<open>
  A name that ends in a newline never has the specification's dated form, and the source's
  test accepts it exactly when the name without the newline has that form.
\<close>

lemma spec_dated_no_newline:
  assumes "nm \<noteq> []" and "last nm = CHR 10"
  shows "\<not> spec_dated_snapshot nm"
proof
  assume "spec_dated_snapshot nm"
  then obtain base where tk: "take (length base + 1) nm = base @ ''-''"
    and md: "month_day_like (drop (length base + 1) nm)"
    unfolding spec_dated_snapshot_def by blast
  let ?sfx = "drop (length base + 1) nm"
  from md obtain a b c d where sfx: "?sfx = [a, b, c, d]" and d: "is_digit d"
    unfolding month_day_like_def by (auto split: list.splits)
  have "nm = take (length base + 1) nm @ ?sfx" by simp
  with sfx have "last nm = d" by (metis last_appendR last.simps list.distinct(1))
  with assms(2) d show False unfolding is_digit_def by simp
qed

lemma dated_heuristic_newline:
  assumes "nm \<noteq> []" and "last nm = CHR 10"
  shows "join ''-'' (butlast (split_on CHR ''-'' nm)) \<in> set chat_models \<and> re_match_dated nm
           \<longleftrightarrow> spec_dated_snapshot (butlast nm)"
proof
  assume code: "join ''-'' (butlast (split_on CHR ''-'' nm)) \<in> set chat_models \<and> re_match_dated nm"
  have "\<not> match_dated_at_end nm"
  proof
    assume "match_dated_at_end nm"
    then obtain p sfx where nm: "nm = p @ CHR ''-'' # sfx" and md: "month_day_like sfx"
      unfolding match_dated_at_end_iff by blast
    from md obtain a b c d where sfx: "sfx = [a, b, c, d]" and d: "is_digit d"
      unfolding month_day_like_def by (auto split: list.splits)
    from nm sfx have "last nm = d" by simp
    with assms(2) d show False unfolding is_digit_def by simp
  qed
  with code have "match_dated_at_end (butlast nm)" unfolding re_match_dated_def by blast
  then obtain p sfx where bl: "butlast nm = p @ CHR ''-'' # sfx" and md: "month_day_like sfx"
    unfolding match_dated_at_end_iff by blast
  from assms have "nm = butlast nm @ [CHR 10]" by (metis append_butlast_last_id)
  with bl have nm: "nm = p @ CHR ''-'' # (sfx @ [CHR 10])" by simp
  from md have "CHR ''-'' \<notin> set (sfx @ [CHR 10])"
    using month_day_like_no_hyphen [of sfx] by simp
  then have "join ''-'' (butlast (split_on CHR ''-'' (p @ CHR ''-'' # (sfx @ [CHR 10])))) = p"
    by (rule strip_last_segment)
  with nm code have "p \<in> set chat_models" by simp
  moreover from bl md have "take (length p + 1) (butlast nm) = p @ ''-''"
    and "month_day_like (drop (length p + 1) (butlast nm))" by simp_all
  ultimately show "spec_dated_snapshot (butlast nm)" unfolding spec_dated_snapshot_def by blast
next
  assume spec: "spec_dated_snapshot (butlast nm)"
  from assms obtain b where nmb: "nm = b @ [CHR 10]" by (metis append_butlast_last_id)
  then have b: "butlast nm = b" by simp
  from spec obtain base where base: "base \<in> set chat_models"
    and tk: "take (length base + 1) b = base @ ''-''"
    and md: "month_day_like (drop (length base + 1) b)"
    unfolding spec_dated_snapshot_def b by blast
  define sfx where "sfx = drop (length base + 1) b"
  have "b = take (length base + 1) b @ sfx" unfolding sfx_def by simp
  with tk have bl: "b = base @ CHR ''-'' # sfx" by simp
  from md have md': "month_day_like sfx" unfolding sfx_def .
  have nm: "nm = base @ CHR ''-'' # (sfx @ [CHR 10])" unfolding nmb by (subst bl) simp
  from md' have "CHR ''-'' \<notin> set (sfx @ [CHR 10])"
    using month_day_like_no_hyphen [of sfx] by simp
  then have "join ''-'' (butlast (split_on CHR ''-'' (base @ CHR ''-'' # (sfx @ [CHR 10])))) = base"
    by (rule strip_last_segment)
  then have j: "join ''-'' (butlast (split_on CHR ''-'' nm)) = base" unfolding nm .
  from bl md' chat_models_plain [OF base] have "match_dated_at_end b"
    unfolding match_dated_at_end_iff by blast
  with assms b have "re_match_dated nm" unfolding re_match_dated_def by simp
  with j base show "join ''-'' (butlast (split_on CHR ''-'' nm)) \<in> set chat_models \<and> re_match_dated nm"
    by simp
qed

text \<open>
  The names on which the source's test and the specification's rule can differ: a dated
  chat-model name followed by a newline.
\<close>

lemma dated_heuristic_agrees:
  assumes "nm \<noteq> []" and "\<not> (last nm = CHR 10 \<and> spec_dated_snapshot (butlast nm))"
  shows "join ''-'' (butlast (split_on CHR ''-'' nm)) \<in> set chat_models \<and> re_match_dated nm
           \<longleftrightarrow> spec_dated_snapshot nm"
proof (cases "last nm = CHR 10")
  case False
  then show ?thesis by (rule dated_heuristic_iff)
next
  case True
  with assms dated_heuristic_newline [OF assms(1) True] spec_dated_no_newline [OF assms(1) True]
  show ?thesis by blast
qed

lemma load_client_routes:
  assumes "name g \<noteq> []"
    and "\<not> (last (name g) = CHR 10 \<and> spec_dated_snapshot (butlast (name g)))"
  shows "load_client ml g =
           (case spec_router (name g) of
              Inl e \<Rightarrow> (Some e, g\<lparr>client := Some (OpenAI (api_key g))\<rparr>)
            | Inr ep \<Rightarrow> (None, g\<lparr>client := Some (OpenAI (api_key g)), generator := Some ep\<rparr>))"
  using assms(1) dated_heuristic_agrees [OF assms]
  unfolding load_client_def spec_router_def by (simp add: Let_def)

lemma init_routes:
  assumes "nm \<noteq> []" and "\<not> (last nm = CHR 10 \<and> spec_dated_snapshot (butlast nm))"
  shows "(case spec_router nm of
            Inl e \<Rightarrow> init ml nm g = Inl e
          | Inr ep \<Rightarrow> (\<exists>g'. init ml nm g = Inr g'))"
proof -
  define g2 where "g2 = (case map_of context_lengths nm of
                           Some l \<Rightarrow> g\<lparr>name := nm, context_len := Some l\<rparr>
                         | None \<Rightarrow> g\<lparr>name := nm\<rparr>)"
  have nm: "name g2 = nm" unfolding g2_def by (simp split: option.splits)
  have i: "init ml nm g =
             (case load_client ml g2 of
                (Some e, g3) \<Rightarrow> Inl e
              | (None, g3) \<Rightarrow>
                  (case generator g3 of
                     None \<Rightarrow> Inl UnsupportedModel
                   | Some ep \<Rightarrow> Inr (clear_client g3)))"
    unfolding init_def g2_def by (simp add: Let_def)
  from assms nm have "name g2 \<noteq> []"
    and "\<not> (last (name g2) = CHR 10 \<and> spec_dated_snapshot (butlast (name g2)))" by simp_all
  from load_client_routes [OF this, of ml] show ?thesis
    unfolding i nm by (simp split: sum.splits)
qed

text \<open>The guard at the head of \<^verbatim>\<open>_load_client\<close>, for every instance and listing.\<close>

lemma load_client_empty_name:
  "name g = [] \<Longrightarrow>
     fst (load_client ml g)
       = Some (case ml of Inl e \<Rightarrow> e | Inr ids \<Rightarrow> ModelNameRequired (sort ids))"
  unfolding load_client_def by (simp add: Let_def split: sum.splits)

lemma init_empty_name:
  "init ml [] g = Inl (case ml of Inl e \<Rightarrow> e | Inr ids \<Rightarrow> ModelNameRequired (sort ids))"
proof -
  have "map_of context_lengths [] = None" unfolding context_lengths_def by simp
  then have "init ml [] g =
      (case load_client ml (g\<lparr>name := []\<rparr>) of
         (Some e, g3) \<Rightarrow> Inl e
       | (None, g3) \<Rightarrow>
           (case generator g3 of
              None \<Rightarrow> Inl UnsupportedModel
            | Some ep \<Rightarrow> Inr (clear_client g3)))"
    unfolding init_def by (simp add: Let_def)
  moreover have "fst (load_client ml (g\<lparr>name := []\<rparr>))
       = Some (case ml of Inl e \<Rightarrow> e | Inr ids \<Rightarrow> ModelNameRequired (sort ids))"
    by (rule load_client_empty_name) simp
  ultimately show ?thesis by (simp split: prod.splits)
qed

text \<open>
  Claim C1, amended. For the empty name, loading the client and construction fail with the
  error of the guard at the head of \<^verbatim>\<open>_load_client\<close>: the model-name-required error
  that lists the provider's model ids in sorted order (or the exception of the listing call
  when that call fails). For every other model name, apart from a dated chat-model name
  followed by a newline, \<^verbatim>\<open>_load_client\<close> decides the endpoint in the specification's
  order: a completion-model name gives Completion; otherwise a chat-model name gives Chat;
  otherwise a chat-model name followed by a hyphen and a four-digit month/day-like suffix
  gives Completion; otherwise loading and construction fail with the error that names the
  model.
\<close>

theorem router_follows_spec_order:
  "(nm = [] \<longrightarrow>
      fst (load_client ml (g\<lparr>name := nm\<rparr>))
        = Some (case ml of Inl e \<Rightarrow> e | Inr ids \<Rightarrow> ModelNameRequired (sort ids))
      \<and> init ml nm g
          = Inl (case ml of Inl e \<Rightarrow> e | Inr ids \<Rightarrow> ModelNameRequired (sort ids)))
   \<and> (nm \<noteq> [] \<and> \<not> (last nm = CHR 10 \<and> spec_dated_snapshot (butlast nm)) \<longrightarrow>
        (case spec_router nm of
           Inl e \<Rightarrow> e = NoAPIDefined nm
                     \<and> fst (load_client ml (g\<lparr>name := nm\<rparr>)) = Some e
                     \<and> init ml nm g = Inl e
         | Inr ep \<Rightarrow> fst (load_client ml (g\<lparr>name := nm\<rparr>)) = None
                     \<and> generator (snd (load_client ml (g\<lparr>name := nm\<rparr>))) = Some ep
                     \<and> (\<exists>g'. init ml nm g = Inr g')))"
proof (intro conjI impI)
  assume "nm = []"
  then show "fst (load_client ml (g\<lparr>name := nm\<rparr>))
        = Some (case ml of Inl e \<Rightarrow> e | Inr ids \<Rightarrow> ModelNameRequired (sort ids))"
    by (intro load_client_empty_name) simp
next
  assume "nm = []"
  then show "init ml nm g
          = Inl (case ml of Inl e \<Rightarrow> e | Inr ids \<Rightarrow> ModelNameRequired (sort ids))"
    by (simp add: init_empty_name)
next
  assume h: "nm \<noteq> [] \<and> \<not> (last nm = CHR 10 \<and> spec_dated_snapshot (butlast nm))"
  then have ne: "nm \<noteq> []"
    and ok: "\<not> (last nm = CHR 10 \<and> spec_dated_snapshot (butlast nm))" by blast+
  from ne ok have "name (g\<lparr>name := nm\<rparr>) \<noteq> []"
    and "\<not> (last (name (g\<lparr>name := nm\<rparr>)) = CHR 10
           \<and> spec_dated_snapshot (butlast (name (g\<lparr>name := nm\<rparr>))))"
    by simp_all
  from load_client_routes [OF this, of ml] init_routes [OF ne ok, of ml g]
  show "(case spec_router nm of
           Inl e \<Rightarrow> e = NoAPIDefined nm
                     \<and> fst (load_client ml (g\<lparr>name := nm\<rparr>)) = Some e
                     \<and> init ml nm g = Inl e
         | Inr ep \<Rightarrow> fst (load_client ml (g\<lparr>name := nm\<rparr>)) = None
                     \<and> generator (snd (load_client ml (g\<lparr>name := nm\<rparr>))) = Some ep
                     \<and> (\<exists>g'. init ml nm g = Inr g'))"
    by (auto simp: spec_router_def split: sum.splits if_splits)
qed

text \<open>
  The theorem at the empty name, at a dated name the tables do not list, and at a
  chat-model name followed by a newline.
\<close>

theorem router_follows_spec_order_witness:
  "init (Inr [''davinci-002'', ''babbage-002'']) [] default_params
     = Inl (ModelNameRequired [''babbage-002'', ''davinci-002''])
   \<and> init (Inl APIConnectionError) [] default_params = Inl APIConnectionError
   \<and> fst (load_client (Inr []) (default_params\<lparr>name := ''gpt-4o-0613''\<rparr>)) = None
   \<and> generator (snd (load_client (Inr []) (default_params\<lparr>name := ''gpt-4o-0613''\<rparr>)))
       = Some Completion
   \<and> (\<exists>g'. init (Inr []) ''gpt-4o-0613'' default_params = Inr g')
   \<and> init (Inr []) (''gpt-4'' @ [CHR 10]) default_params
       = Inl (NoAPIDefined (''gpt-4'' @ [CHR 10]))"
proof -
  have r: "spec_router ''gpt-4o-0613'' = Inr Completion"
    by (simp add: spec_router_def spec_dated_snapshot_def month_day_like_def is_digit_def
        chat_models_def completion_models_def)
  have n: "spec_router (''gpt-4'' @ [CHR 10]) = Inl (NoAPIDefined (''gpt-4'' @ [CHR 10]))"
    by (simp add: spec_router_def spec_dated_snapshot_def month_day_like_def is_digit_def
        chat_models_def completion_models_def)
  have plain: "\<not> spec_dated_snapshot (butlast (''gpt-4'' @ [CHR 10]))"
    by (simp add: spec_dated_snapshot_def month_day_like_def chat_models_def)
  show ?thesis
    using router_follows_spec_order
            [of "[]" "Inr [''davinci-002'', ''babbage-002'']" default_params]
      router_follows_spec_order [of "[]" "Inl APIConnectionError" default_params]
      router_follows_spec_order [of "''gpt-4o-0613''" "Inr []" default_params]
      router_follows_spec_order [of "''gpt-4'' @ [CHR 10]" "Inr []" default_params]
      plain
    by (simp add: r n [simplified])
qed

text \<open>
  Claim C1 as stated fails at the empty name: none of the first three steps applies, yet
  construction does not fail with the error naming the model. The guard at the head of
  \<^verbatim>\<open>_load_client\<close> raises the model-name-required error listing the provider's models.
\<close>

theorem empty_name_counterexample:
  "spec_router [] = Inl (NoAPIDefined [])
   \<and> init (Inr [''davinci-002'', ''babbage-002'']) [] default_params
       = Inl (ModelNameRequired [''babbage-002'', ''davinci-002''])"
  by (simp add: spec_router_def spec_dated_snapshot_def month_day_like_def
      chat_models_def completion_models_def init_def load_client_def context_lengths_def
      default_params_def)

text \<open>
  The regular expression's \<^verbatim>\<open>$\<close> also accepts a newline after the four digits, so
  such a name is routed to Completion although its last segment is not four digits.
\<close>

lemma dated_name_with_newline_routed:
  "fst (load_client (Inr []) (default_params\<lparr>name := ''gpt-4o-0613'' @ [CHR 10]\<rparr>)) = None
   \<and> generator (snd (load_client (Inr []) (default_params\<lparr>name := ''gpt-4o-0613'' @ [CHR 10]\<rparr>)))
       = Some Completion
   \<and> spec_router (''gpt-4o-0613'' @ [CHR 10]) = Inl (NoAPIDefined (''gpt-4o-0613'' @ [CHR 10]))"
  by (simp add: load_client_def default_params_def chat_models_def completion_models_def
      re_match_dated_def match_dated_at_end_def is_digit_def spec_router_def
      spec_dated_snapshot_def month_day_like_def)

text \<open>
  Claim C2 as stated fails: \<^verbatim>\<open>gpt-4-0613\<close> is itself listed in \<^verbatim>\<open>chat_models\<close>, and
  the exact lookup runs before the dated-suffix rule.
\<close>

theorem gpt_4_0613_counterexample:
  "generator (snd (load_client (Inr []) (default_params\<lparr>name := ''gpt-4-0613''\<rparr>))) \<noteq> Some Completion"
  by (simp add: load_client_def default_params_def chat_models_def completion_models_def)

text \<open>
  Claim C2, amended. For the model name \<^verbatim>\<open>gpt-4-0613\<close>, loading the client succeeds
  with the Chat endpoint and construction succeeds.
\<close>

theorem gpt_4_0613_is_chat:
  "fst (load_client ml (g\<lparr>name := ''gpt-4-0613''\<rparr>)) = None
   \<and> generator (snd (load_client ml (g\<lparr>name := ''gpt-4-0613''\<rparr>))) = Some Chat
   \<and> (\<exists>g'. init ml ''gpt-4-0613'' g = Inr g')"
  by (simp add: load_client_def init_def context_lengths_def chat_models_def
      completion_models_def)

section \<open>The life of the client handle\<close>

lemma load_client_sets_client: "client (snd (load_client ml g)) = Some (OpenAI (api_key g))"
  unfolding load_client_def by (simp add: Let_def split: sum.splits)

lemma ensure_client_present: "client (snd (ensure_client ml g)) \<noteq> None"
  unfolding ensure_client_def by (simp add: load_client_sets_client)

lemma body_final_instance:
  "snd (snd (call_model_body ml oc prompt n g)) = snd (ensure_client ml g)"
  unfolding call_model_body_def
  by (simp split: prod.splits option.splits sum.splits)

text \<open>
  The decorated call returns the instance its first try leaves: later tries find the client
  present and change nothing.
\<close>

lemma retry_keeps_loaded_instance:
  assumes "retry ml net draws prompt n i ab sleeps sent g = Some y"
  shows "client g \<noteq> None \<longrightarrow> snd (snd (snd y)) = g"
  using assms
proof (induction rule: retry.raw_induct [rotated 1, consumes 1, case_names step])
  case (step retry' ml net draws prompt n i ab sleeps sent g y)
  show ?case
  proof
    assume present: "client g \<noteq> None"
    then have fin: "snd (snd (call_model_body ml (net i) prompt n g)) = g"
      by (auto simp: body_final_instance ensure_client_def)
    obtain res req g1 where b: "call_model_body ml (net i) prompt n g = (res, req, g1)"
      by (cases "call_model_body ml (net i) prompt n g")
    with fin have g1: "g1 = g" by simp
    show "snd (snd (snd y)) = g"
    proof (cases res)
      case (Inr x)
      with step.hyps b g1 show ?thesis by auto
    next
      case (Inl e)
      show ?thesis
      proof (cases "retried e")
        case True
        with step.hyps b Inl g1 obtain v ab1 where
          "retry' ml net draws prompt n (Suc i) ab1 (sleeps @ [full_jitter (draws i) v])
             (sent @ list_of_option req) g = Some y"
          by (auto split: prod.splits)
        from step.IH [OF this] present show ?thesis by blast
      next
        case False
        with step.hyps b Inl g1 show ?thesis by auto
      qed
    qed
  qed
qed

lemma retry_final_instance:
  assumes "retry ml net draws prompt n i ab sleeps sent g = Some y"
  shows "snd (snd (snd y)) = snd (ensure_client ml g)"
proof -
  let ?g1 = "snd (ensure_client ml g)"
  obtain res req where b: "call_model_body ml (net i) prompt n g = (res, req, ?g1)"
    using body_final_instance [of ml "net i" prompt n g]
    by (cases "call_model_body ml (net i) prompt n g") auto
  have loaded: "client ?g1 \<noteq> None" by (rule ensure_client_present)
  from assms have unfolded:
    "(case call_model_body ml (net i) prompt n g of
        (Inr r, req, g1) \<Rightarrow> Some (Inr r, sleeps, sent @ list_of_option req, g1)
      | (Inl e, req, g1) \<Rightarrow>
          (if retried e then
             (case fibo_next 70 ab of
                (v, ab1) \<Rightarrow>
                  retry ml net draws prompt n (Suc i) ab1
                    (sleeps @ [full_jitter (draws i) v]) (sent @ list_of_option req) g1)
           else Some (Inl e, sleeps, sent @ list_of_option req, g1))) = Some y"
    by (subst (asm) retry.simps)
  show ?thesis
  proof (cases res)
    case (Inr x)
    with unfolded b show ?thesis by auto
  next
    case (Inl e)
    show ?thesis
    proof (cases "retried e")
      case True
      with unfolded b Inl obtain v ab1 where
        "retry ml net draws prompt n (Suc i) ab1 (sleeps @ [full_jitter (draws i) v])
           (sent @ list_of_option req) ?g1 = Some y"
        by (auto split: prod.splits)
      from retry_keeps_loaded_instance [OF this] loaded show ?thesis by blast
    next
      case False
      with unfolded b Inl show ?thesis by auto
    qed
  qed
qed

section \<open>What one execution of the body does\<close>

lemma load_client_keeps_config:
  "name (snd (load_client ml g)) = name g"
  "api_key (snd (load_client ml g)) = api_key g"
  "temperature (snd (load_client ml g)) = temperature g"
  "max_tokens (snd (load_client ml g)) = max_tokens g"
  "top_p (snd (load_client ml g)) = top_p g"
  "frequency_penalty (snd (load_client ml g)) = frequency_penalty g"
  "presence_penalty (snd (load_client ml g)) = presence_penalty g"
  "stop (snd (load_client ml g)) = stop g"
  "seed (snd (load_client ml g)) = seed g"
  "suppressed_params (snd (load_client ml g)) = suppressed_params g"
  "retry_json (snd (load_client ml g)) = retry_json g"
  unfolding load_client_def by (simp_all add: Let_def split: sum.splits)

lemma ensure_client_keeps_config:
  "name (snd (ensure_client ml g)) = name g"
  "api_key (snd (ensure_client ml g)) = api_key g"
  "temperature (snd (ensure_client ml g)) = temperature g"
  "max_tokens (snd (ensure_client ml g)) = max_tokens g"
  "top_p (snd (ensure_client ml g)) = top_p g"
  "frequency_penalty (snd (ensure_client ml g)) = frequency_penalty g"
  "presence_penalty (snd (ensure_client ml g)) = presence_penalty g"
  "stop (snd (ensure_client ml g)) = stop g"
  "seed (snd (ensure_client ml g)) = seed g"
  "suppressed_params (snd (ensure_client ml g)) = suppressed_params g"
  "retry_json (snd (ensure_client ml g)) = retry_json g"
  unfolding ensure_client_def by (simp_all add: load_client_keeps_config)

lemma create_args_ensure_client:
  "create_args (snd (ensure_client ml g)) n = create_args g n"
  unfolding create_args_def by (simp add: ensure_client_keeps_config)

lemma filter_args_ensure_client:
  "filter_args (snd (ensure_client ml g)) args = filter_args g args"
  unfolding filter_args_def by (simp add: ensure_client_keeps_config)

lemma ensure_client_again:
  "ensure_client ml (snd (ensure_client ml g)) = (None, snd (ensure_client ml g))"
  using ensure_client_present [of ml g]
  unfolding ensure_client_def [of ml "snd (ensure_client ml g)"] by auto

text \<open>The body makes the network call exactly when the client loads, the generator is an
  endpoint and the prompt has the endpoint's shape.\<close>

lemma body_unfolded:
  "call_model_body ml oc prompt n g =
     (case fst (ensure_client ml g) of
        Some e \<Rightarrow> (Inl e, None, snd (ensure_client ml g))
      | None \<Rightarrow>
          (case add_prompt (snd (ensure_client ml g)) prompt (filter_args g (create_args g n)) of
             None \<Rightarrow> (Inr [], None, snd (ensure_client ml g))
           | Some args \<Rightarrow>
               (case generator (snd (ensure_client ml g)) of
                  None \<Rightarrow> (Inl AttributeError, None, snd (ensure_client ml g))
                | Some ep \<Rightarrow>
                    (handle_outcome (snd (ensure_client ml g)) ep oc, Some args,
                     snd (ensure_client ml g)))))"
proof -
  obtain e g1 where eg: "ensure_client ml g = (e, g1)" by (cases "ensure_client ml g")
  have "create_args g1 n = create_args g n" and "\<And>xs. filter_args g1 xs = filter_args g xs"
    using create_args_ensure_client [of ml g n] filter_args_ensure_client [of ml g] eg
    by simp_all
  then show ?thesis
    unfolding call_model_body_def eg by (simp split: option.splits)
qed

lemma body_request_iff:
  "fst (snd (call_model_body ml oc prompt n g)) = Some args \<longleftrightarrow>
     (\<exists>ep. fst (ensure_client ml g) = None
         \<and> generator (snd (ensure_client ml g)) = Some ep
         \<and> add_prompt (snd (ensure_client ml g)) prompt (filter_args g (create_args g n)) = Some args)"
  unfolding body_unfolded by (auto split: option.splits)

lemma body_when_called:
  assumes "fst (snd (call_model_body ml oc0 prompt n g)) = Some args"
  shows "\<exists>ep. generator (snd (ensure_client ml g)) = Some ep \<and>
           (\<forall>oc. call_model_body ml oc prompt n g
                  = (handle_outcome (snd (ensure_client ml g)) ep oc, Some args, snd (ensure_client ml g)))"
  using assms unfolding body_unfolded by (auto split: option.splits)

lemma body_request_after:
  assumes "fst (snd (call_model_body ml oc0 prompt n g)) = Some args"
  shows "fst (snd (call_model_body ml oc prompt n (snd (ensure_client ml g)))) = Some args"
  using assms unfolding body_request_iff
  by (simp add: ensure_client_again create_args_ensure_client filter_args_ensure_client)

section \<open>The retry loop\<close>

subsection \<open>One turn\<close>

lemma retry_step:
  assumes "fst (snd (call_model_body ml oc0 prompt n g)) = Some args"
    and "generator (snd (ensure_client ml g)) = Some ep"
  shows "retry ml net draws prompt n i ab sleeps sent g =
     (case handle_outcome (snd (ensure_client ml g)) ep (net i) of
        Inr r \<Rightarrow> Some (Inr r, sleeps, sent @ [args], snd (ensure_client ml g))
      | Inl e \<Rightarrow>
          if retried e then
            retry ml net draws prompt n (Suc i) (snd (fibo_next 70 ab))
              (sleeps @ [full_jitter (draws i) (fst (fibo_next 70 ab))]) (sent @ [args])
              (snd (ensure_client ml g))
          else Some (Inl e, sleeps, sent @ [args], snd (ensure_client ml g)))"
proof -
  from body_when_called [OF assms(1)] assms(2)
  have b: "call_model_body ml (net i) prompt n g
             = (handle_outcome (snd (ensure_client ml g)) ep (net i), Some args,
                snd (ensure_client ml g))"
    by auto
  show ?thesis
    by (subst retry.simps) (simp add: b list_of_option_def split: sum.splits prod.splits)
qed

lemma called_after:
  assumes "fst (snd (call_model_body ml oc0 prompt n g)) = Some args"
    and "generator (snd (ensure_client ml g)) = Some ep"
  shows "fst (snd (call_model_body ml oc prompt n (snd (ensure_client ml g)))) = Some args"
    and "generator (snd (ensure_client ml (snd (ensure_client ml g)))) = Some ep"
    and "snd (ensure_client ml (snd (ensure_client ml g))) = snd (ensure_client ml g)"
  using assms body_request_after [OF assms(1)] by (simp_all add: ensure_client_again)

subsection \<open>The wait generator\<close>

lemma length_fibo_waits: "length (fibo_waits mx ab k) = k"
  by (induction k arbitrary: ab) (auto split: prod.splits)

lemma fibo_waits_capped: "v \<in> set (fibo_waits mx ab k) \<Longrightarrow> v \<le> mx"
  by (induction k arbitrary: ab) (auto simp: fibo_next_def split: prod.splits if_splits)

lemma fibo_waits_lower:
  "fst ab \<le> snd ab \<Longrightarrow> v \<in> set (fibo_waits mx ab k) \<Longrightarrow> min (fst ab) mx \<le> v"
proof (induction k arbitrary: ab)
  case 0
  then show ?case by simp
next
  case (Suc k)
  obtain a b where ab: "ab = (a, b)" by (cases ab)
  show ?case
  proof (cases "a < mx")
    case True
    with Suc.prems ab have "v = a \<or> v \<in> set (fibo_waits mx (b, a + b) k)"
      by (auto simp: fibo_next_def)
    then show ?thesis
    proof
      assume "v = a"
      with ab show ?thesis by simp
    next
      assume "v \<in> set (fibo_waits mx (b, a + b) k)"
      with Suc.IH [of "(b, a + b)"] have "min b mx \<le> v" by simp
      with Suc.prems(1) ab True show ?thesis by simp
    qed
  next
    case False
    with Suc.prems ab have "v = mx \<or> v \<in> set (fibo_waits mx (a, b) k)"
      by (auto simp: fibo_next_def)
    then show ?thesis
    proof
      assume "v = mx"
      then show ?thesis by simp
    next
      assume "v \<in> set (fibo_waits mx (a, b) k)"
      with Suc.IH [of "(a, b)"] Suc.prems(1) ab show ?thesis by simp
    qed
  qed
qed

lemma fibo_waits_sorted: "fst ab \<le> snd ab \<Longrightarrow> sorted (fibo_waits mx ab k)"
proof (induction k arbitrary: ab)
  case 0
  then show ?case by simp
next
  case (Suc k)
  obtain a b where ab: "ab = (a, b)" by (cases ab)
  show ?case
  proof (cases "a < mx")
    case True
    have "\<forall>v \<in> set (fibo_waits mx (b, a + b) k). a \<le> v"
    proof
      fix v assume "v \<in> set (fibo_waits mx (b, a + b) k)"
      with fibo_waits_lower [of "(b, a + b)" v mx k] have "min b mx \<le> v" by simp
      with Suc.prems ab True show "a \<le> v" by simp
    qed
    with Suc.IH [of "(b, a + b)"] True ab show ?thesis
      by (simp add: fibo_next_def)
  next
    case False
    have "\<forall>v \<in> set (fibo_waits mx (a, b) k). mx \<le> v"
    proof
      fix v assume "v \<in> set (fibo_waits mx (a, b) k)"
      with fibo_waits_lower [of "(a, b)" v mx k] Suc.prems ab have "min a mx \<le> v" by simp
      with False show "mx \<le> v" by simp
    qed
    with Suc.IH [of "(a, b)"] Suc.prems False ab show ?thesis
      by (simp add: fibo_next_def)
  qed
qed

lemma jittered_Nil: "jittered draws i [] = []"
  by (simp add: jittered_def)

lemma jittered_Cons:
  "jittered draws i (v # vs) = full_jitter (draws i) v # jittered draws (Suc i) vs"
proof -
  have "[i..<i + length (v # vs)] = i # [Suc i..<Suc i + length vs]"
    by (subst upt_rec) simp
  then show ?thesis unfolding jittered_def by simp
qed

lemma length_jittered: "length (jittered draws i vs) = length vs"
  by (simp add: jittered_def)

lemma jittered_nth:
  "k < length vs \<Longrightarrow> jittered draws i vs ! k = full_jitter (draws (i + k)) (vs ! k)"
  by (simp add: jittered_def)

lemma full_jitter_bounds:
  "0 \<le> d \<Longrightarrow> d \<le> 1 \<Longrightarrow> 0 \<le> full_jitter d v \<and> full_jitter d v \<le> real v"
  unfolding full_jitter_def by (simp add: mult_left_le)

subsection \<open>Rate limits followed by a success\<close>

lemma retry_rate_limited:
  assumes "fst (snd (call_model_body ml oc0 prompt n g)) = Some args"
    and "generator (snd (ensure_client ml g)) = Some ep"
    and "\<forall>j<m. net (i + j) = Inl RateLimitError"
    and "net (i + m) = Inr cs"
  shows "retry ml net draws prompt n i ab sleeps sent g =
           Some (Inr (extract_choices ep cs),
                 sleeps @ jittered draws i (fibo_waits 70 ab m),
                 sent @ replicate (Suc m) args,
                 snd (ensure_client ml g))"
  using assms
proof (induction m arbitrary: i ab sleeps sent g)
  case 0
  then show ?case
    by (simp add: retry_step [OF "0.prems"(1,2)] handle_outcome_def jittered_Nil)
next
  case (Suc m)
  let ?g1 = "snd (ensure_client ml g)"
  from Suc.prems(3) have now: "net i = Inl RateLimitError" by (metis add_0_right zero_less_Suc)
  from Suc.prems(3) have later: "\<forall>j<m. net (Suc i + j) = Inl RateLimitError" by auto
  from Suc.prems(4) have last: "net (Suc i + m) = Inr cs" by simp
  note after = called_after [OF Suc.prems(1,2)]
  have "retry ml net draws prompt n i ab sleeps sent g =
          retry ml net draws prompt n (Suc i) (snd (fibo_next 70 ab))
            (sleeps @ [full_jitter (draws i) (fst (fibo_next 70 ab))]) (sent @ [args]) ?g1"
    by (simp add: retry_step [OF Suc.prems(1,2)] now handle_outcome_def retried_def)
  also have "\<dots> = Some (Inr (extract_choices ep cs),
        (sleeps @ [full_jitter (draws i) (fst (fibo_next 70 ab))])
          @ jittered draws (Suc i) (fibo_waits 70 (snd (fibo_next 70 ab)) m),
        (sent @ [args]) @ replicate (Suc m) args, ?g1)"
    using Suc.IH [OF after(1) after(2) later last] after(3) by simp
  also have "\<dots> = Some (Inr (extract_choices ep cs),
        sleeps @ jittered draws i (fibo_waits 70 ab (Suc m)),
        sent @ replicate (Suc (Suc m)) args, ?g1)"
    by (simp add: jittered_Cons replicate_append_same split: prod.splits)
  finally show ?case .
qed

section \<open>Faults of the network call\<close>

subsection \<open>A worked example\<close>

lemmas example_defs =
  gpt4_instance_def default_params_def hi_request_def call_model_body_def ensure_client_def
  load_client_def Let_def chat_models_def completion_models_def add_prompt_def filter_args_def
  create_args_def

lemma example_request:
  "fst (snd (call_model_body (Inr []) oc (PyStr ''hi'') (PyInt k) gpt4_instance)) = Some (hi_request k)"
  by (simp add: example_defs)

lemma example_loaded:
  "generator (snd (ensure_client (Inr []) gpt4_instance)) = Some Chat"
  by (simp add: example_defs)

subsection \<open>The client handle over a call\<close>

lemma example_loaded_request:
  "fst (snd (call_model_body (Inr []) oc (PyStr ''hi'') (PyInt k)
              (snd (load_client (Inr []) gpt4_instance)))) = Some (hi_request k)"
  by (simp add: example_defs)

lemma example_loaded_again:
  "generator (snd (ensure_client (Inr []) (snd (load_client (Inr []) gpt4_instance))))
     = Some Chat"
  by (simp add: example_defs)

lemma example_bad_request_run:
  "call_model (Inr []) bad_request_always shrinking_draws (PyStr ''hi'') (PyInt 3) gpt4_instance
     = Some (Inr [None], [], [hi_request 3], snd (ensure_client (Inr []) gpt4_instance))"
  unfolding call_model_def
  by (simp add: retry_step [OF example_request example_loaded] bad_request_always_def
      handle_outcome_def)

lemma example_bad_request_run_loaded:
  "call_model (Inr []) bad_request_always shrinking_draws (PyStr ''hi'') (PyInt 3)
       (snd (load_client (Inr []) gpt4_instance))
     = Some (Inr [None], [], [hi_request 3],
             snd (ensure_client (Inr []) (snd (load_client (Inr []) gpt4_instance))))"
  unfolding call_model_def
  by (simp add: retry_step [OF example_loaded_request example_loaded_again]
      bad_request_always_def handle_outcome_def)

text \<open>
  Claim C3 as stated fails: \<^verbatim>\<open>__setstate__\<close> ends with \<^verbatim>\<open>self._load_client()\<close>, so
  an instance restored from a pickled state holds a client at once.
\<close>

theorem restored_client_counterexample:
  "client (snd (setstate (Inr []) (fst (getstate (default_params\<lparr>name := ''gpt-4''\<rparr>))))) \<noteq> None"
  by (simp add: setstate_def load_client_sets_client)

text \<open>
  Claim C3, amended. \<^verbatim>\<open>__getstate__\<close> leaves both the pickled state and the live
  instance without a client; \<^verbatim>\<open>__setstate__\<close> creates the client of the restored
  instance immediately. \<^verbatim>\<open>_call_model\<close> on an instance without a client ends with the
  instance \<^verbatim>\<open>_load_client\<close> makes of it, whose client is the one just created; on an
  instance that has a client it leaves the whole instance, client included, as it was. Both
  hold of one execution of the body and of the decorated call whenever it returns or
  raises, and an execution of the body always ends with a client present.
\<close>

theorem client_handle_lifecycle:
  "client (fst (getstate g)) = None \<and> client (snd (getstate g)) = None
   \<and> client (snd (setstate ml d)) = Some (OpenAI (api_key d))
   \<and> (client g = None \<longrightarrow> ensure_client ml g = load_client ml g)
   \<and> (client g \<noteq> None \<longrightarrow> ensure_client ml g = (None, g))
   \<and> (client g = None \<longrightarrow>
        snd (snd (call_model_body ml oc prompt n g)) = snd (load_client ml g)
        \<and> client (snd (snd (call_model_body ml oc prompt n g))) = Some (OpenAI (api_key g)))
   \<and> (client g \<noteq> None \<longrightarrow> snd (snd (call_model_body ml oc prompt n g)) = g)
   \<and> client (snd (snd (call_model_body ml oc prompt n g))) \<noteq> None
   \<and> (client g = None \<and> call_model ml net draws prompt n g = Some y \<longrightarrow>
        snd (snd (snd y)) = snd (load_client ml g)
        \<and> client (snd (snd (snd y))) = Some (OpenAI (api_key g)))
   \<and> (client g \<noteq> None \<and> call_model ml net draws prompt n g = Some y \<longrightarrow>
        snd (snd (snd y)) = g)"
proof -
  have final: "snd (snd (call_model_body ml oc prompt n g)) = snd (ensure_client ml g)"
    by (rule body_final_instance)
  have body: "client (snd (snd (call_model_body ml oc prompt n g))) \<noteq> None"
    unfolding final by (rule ensure_client_present)
  have pickled: "client (fst (getstate g)) = None \<and> client (snd (getstate g)) = None"
    by (simp add: getstate_def clear_client_def Let_def)
  have restored: "client (snd (setstate ml d)) = Some (OpenAI (api_key d))"
    by (simp add: setstate_def load_client_sets_client)
  have lazy: "(client g = None \<longrightarrow> ensure_client ml g = load_client ml g)
      \<and> (client g \<noteq> None \<longrightarrow> ensure_client ml g = (None, g))"
    by (simp add: ensure_client_def)
  have created: "client g = None \<longrightarrow>
        snd (snd (call_model_body ml oc prompt n g)) = snd (load_client ml g)
        \<and> client (snd (snd (call_model_body ml oc prompt n g))) = Some (OpenAI (api_key g))"
    unfolding final by (simp add: ensure_client_def load_client_sets_client)
  have kept: "client g \<noteq> None \<longrightarrow> snd (snd (call_model_body ml oc prompt n g)) = g"
    unfolding final by (simp add: ensure_client_def)
  have whole: "snd (snd (snd y)) = snd (ensure_client ml g)"
    if "call_model ml net draws prompt n g = Some y"
    using that unfolding call_model_def by (rule retry_final_instance)
  have created_call: "client g = None \<and> call_model ml net draws prompt n g = Some y \<longrightarrow>
        snd (snd (snd y)) = snd (load_client ml g)
        \<and> client (snd (snd (snd y))) = Some (OpenAI (api_key g))"
    using whole by (auto simp: ensure_client_def load_client_sets_client)
  have kept_call: "client g \<noteq> None \<and> call_model ml net draws prompt n g = Some y \<longrightarrow>
        snd (snd (snd y)) = g"
    using whole by (auto simp: ensure_client_def)
  from pickled restored lazy created kept body created_call kept_call show ?thesis by blast
qed

text \<open>
  The theorem at the \<^verbatim>\<open>gpt-4\<close> instance before its client is loaded and after, with a
  call that ends in a bad request.
\<close>

theorem client_handle_lifecycle_witness:
  "client gpt4_instance = None
   \<and> snd (snd (call_model_body (Inr []) (Inr one_choice) (PyStr ''hi'') (PyInt 3) gpt4_instance))
       = snd (load_client (Inr []) gpt4_instance)
   \<and> call_model (Inr []) bad_request_always shrinking_draws (PyStr ''hi'') (PyInt 3)
         gpt4_instance
       = Some (Inr [None], [], [hi_request 3], snd (load_client (Inr []) gpt4_instance))
   \<and> client (snd (load_client (Inr []) gpt4_instance)) = Some (OpenAI ''sk'')
   \<and> snd (snd (call_model_body (Inr []) (Inr one_choice) (PyStr ''hi'') (PyInt 3)
                (snd (load_client (Inr []) gpt4_instance))))
       = snd (load_client (Inr []) gpt4_instance)
   \<and> call_model (Inr []) bad_request_always shrinking_draws (PyStr ''hi'') (PyInt 3)
         (snd (load_client (Inr []) gpt4_instance))
       = Some (Inr [None], [], [hi_request 3], snd (load_client (Inr []) gpt4_instance))"
proof -
  let ?g1 = "snd (load_client (Inr []) gpt4_instance)"
  let ?y = "(Inr [None], [], [hi_request 3], snd (ensure_client (Inr []) gpt4_instance))
              :: (error + generation_result) \<times> real list \<times> kwargs list \<times> gen"
  let ?y1 = "(Inr [None], [], [hi_request 3], snd (ensure_client (Inr []) ?g1))
              :: (error + generation_result) \<times> real list \<times> kwargs list \<times> gen"
  have absent: "client gpt4_instance = None"
    by (simp add: gpt4_instance_def default_params_def)
  have key: "api_key gpt4_instance = ''sk''"
    by (simp add: gpt4_instance_def default_params_def)
  have present: "client ?g1 \<noteq> None"
    by (simp add: load_client_sets_client)
  have run: "call_model (Inr []) bad_request_always shrinking_draws (PyStr ''hi'') (PyInt 3)
               gpt4_instance = Some ?y"
    by (rule example_bad_request_run)
  have run1: "call_model (Inr []) bad_request_always shrinking_draws (PyStr ''hi'') (PyInt 3)
               ?g1 = Some ?y1"
    by (rule example_bad_request_run_loaded)
  from client_handle_lifecycle
         [of gpt4_instance "Inr []" gpt4_instance "Inr one_choice" "PyStr ''hi''" "PyInt 3"
             bad_request_always shrinking_draws ?y]
       absent run
  have first: "snd (snd (call_model_body (Inr []) (Inr one_choice) (PyStr ''hi'') (PyInt 3)
                   gpt4_instance)) = ?g1"
    and first_call: "snd (snd (snd ?y)) = ?g1"
    and made: "client (snd (snd (snd ?y))) = Some (OpenAI (api_key gpt4_instance))"
    by blast+
  from client_handle_lifecycle
         [of ?g1 "Inr []" gpt4_instance "Inr one_choice" "PyStr ''hi''" "PyInt 3"
             bad_request_always shrinking_draws ?y1]
       present run1
  have second: "snd (snd (call_model_body (Inr []) (Inr one_choice) (PyStr ''hi'') (PyInt 3)
                   ?g1)) = ?g1"
    and second_call: "snd (snd (snd ?y1)) = ?g1"
    by blast+
  from first_call have e: "snd (ensure_client (Inr []) gpt4_instance) = ?g1" by simp
  from second_call have e1: "snd (ensure_client (Inr []) ?g1) = ?g1" by simp
  from made have c: "client ?g1 = Some (OpenAI ''sk'')" unfolding key
    by (simp only: snd_conv e)
  from run have r: "call_model (Inr []) bad_request_always shrinking_draws (PyStr ''hi'')
      (PyInt 3) gpt4_instance = Some (Inr [None], [], [hi_request 3], ?g1)"
    by (simp only: e)
  from run1 have r1: "call_model (Inr []) bad_request_always shrinking_draws (PyStr ''hi'')
      (PyInt 3) ?g1 = Some (Inr [None], [], [hi_request 3], ?g1)"
    by (simp only: e1)
  from absent first r c second r1 show ?thesis by blast
qed

text \<open>
  Claim C4. Whenever a try makes the network call and the call raises a bad-request fault,
  the decorated \<^verbatim>\<open>_call_model\<close> returns the single-element list holding
  \<^verbatim>\<open>None\<close>, whatever the generation count: the loop ends at that try with no further
  wait and no further network call, and nothing is raised.
\<close>

theorem bad_request_yields_single_null:
  assumes "fst (snd (call_model_body ml (net i) prompt n g)) = Some args"
    and "net i = Inl BadRequestError"
  shows "retry ml net draws prompt n i ab sleeps sent g =
           Some (Inr [None], sleeps, sent @ [args], snd (ensure_client ml g))"
proof -
  from body_when_called [OF assms(1)] obtain ep
    where ep: "generator (snd (ensure_client ml g)) = Some ep" by blast
  show ?thesis
    by (simp add: retry_step [OF assms(1) ep] assms(2) handle_outcome_def)
qed

theorem bad_request_yields_single_null_witness:
  "fst (snd (call_model_body (Inr []) (bad_request_always 0) (PyStr ''hi'') (PyInt 3) gpt4_instance))
     = Some (hi_request 3)
   \<and> bad_request_always 0 = Inl BadRequestError
   \<and> call_model (Inr []) bad_request_always shrinking_draws (PyStr ''hi'') (PyInt 3) gpt4_instance
       = Some (Inr [None], [], [hi_request 3], snd (ensure_client (Inr []) gpt4_instance))"
proof -
  have a: "fst (snd (call_model_body (Inr []) (bad_request_always 0) (PyStr ''hi'') (PyInt 3)
              gpt4_instance)) = Some (hi_request 3)"
    by (rule example_request)
  have b: "bad_request_always 0 = Inl BadRequestError"
    by (simp add: bad_request_always_def)
  show ?thesis
    using bad_request_yields_single_null
        [where net = bad_request_always and i = 0 and draws = shrinking_draws
           and ab = "(1, 1)" and sleeps = "[]" and sent = "[]", OF a b] a b
    by (simp add: call_model_def)
qed

text \<open>
  Claim C8. When the network call of a try raises a JSON decode error, the body raises the
  retry trigger if \<^verbatim>\<open>retry_json\<close> is set and the decode error itself otherwise. The
  trigger is listed in the decorator and the decode error is not, so the loop goes on to the
  next try exactly when the flag is set, and otherwise ends at once with the decode error
  raised to the caller.
\<close>

theorem decode_error_retried_iff_flag:
  assumes "fst (snd (call_model_body ml (net i) prompt n g)) = Some args"
    and "net i = Inl JSONDecodeError"
  shows "fst (call_model_body ml (net i) prompt n g)
           = Inl (if retry_json g then GarakBackoffTrigger else JSONDecodeError)
         \<and> retried GarakBackoffTrigger \<and> \<not> retried JSONDecodeError
         \<and> retry ml net draws prompt n i ab sleeps sent g =
             (if retry_json g then
                retry ml net draws prompt n (Suc i) (snd (fibo_next 70 ab))
                  (sleeps @ [full_jitter (draws i) (fst (fibo_next 70 ab))]) (sent @ [args])
                  (snd (ensure_client ml g))
              else Some (Inl JSONDecodeError, sleeps, sent @ [args], snd (ensure_client ml g)))"
proof -
  from body_when_called [OF assms(1)] obtain ep
    where ep: "generator (snd (ensure_client ml g)) = Some ep"
      and body: "call_model_body ml (net i) prompt n g
           = (handle_outcome (snd (ensure_client ml g)) ep (net i), Some args,
              snd (ensure_client ml g))"
    by blast
  have flag: "retry_json (snd (ensure_client ml g)) = retry_json g"
    by (rule ensure_client_keeps_config)
  have raised: "fst (call_model_body ml (net i) prompt n g)
           = Inl (if retry_json g then GarakBackoffTrigger else JSONDecodeError)"
    using body unfolding assms(2) by (simp add: handle_outcome_def flag)
  have listed: "retried GarakBackoffTrigger \<and> \<not> retried JSONDecodeError"
    by (simp add: retried_def)
  have loop: "retry ml net draws prompt n i ab sleeps sent g =
             (if retry_json g then
                retry ml net draws prompt n (Suc i) (snd (fibo_next 70 ab))
                  (sleeps @ [full_jitter (draws i) (fst (fibo_next 70 ab))]) (sent @ [args])
                  (snd (ensure_client ml g))
              else Some (Inl JSONDecodeError, sleeps, sent @ [args], snd (ensure_client ml g)))"
    by (simp add: retry_step [OF assms(1) ep] assms(2) handle_outcome_def flag retried_def)
  from raised listed loop show ?thesis by blast
qed

theorem decode_error_retried_iff_flag_witness:
  "fst (snd (call_model_body (Inr []) (decode_error_once 0) (PyStr ''hi'') (PyInt 1) gpt4_instance))
     = Some (hi_request 1)
   \<and> decode_error_once 0 = Inl JSONDecodeError
   \<and> retry_json gpt4_instance
   \<and> fst (call_model_body (Inr []) (decode_error_once 0) (PyStr ''hi'') (PyInt 1) gpt4_instance)
       = Inl GarakBackoffTrigger
   \<and> call_model (Inr []) decode_error_once shrinking_draws (PyStr ''hi'') (PyInt 1) gpt4_instance
       = retry (Inr []) decode_error_once shrinking_draws (PyStr ''hi'') (PyInt 1) 1 (1, 2)
           [1 / 2] [hi_request 1] (snd (ensure_client (Inr []) gpt4_instance))"
proof -
  have a: "fst (snd (call_model_body (Inr []) (decode_error_once 0) (PyStr ''hi'') (PyInt 1)
              gpt4_instance)) = Some (hi_request 1)"
    by (rule example_request)
  have b: "decode_error_once 0 = Inl JSONDecodeError"
    by (simp add: decode_error_once_def)
  have c: "retry_json gpt4_instance"
    by (simp add: gpt4_instance_def default_params_def)
  show ?thesis
    using decode_error_retried_iff_flag
        [where net = decode_error_once and i = 0 and draws = shrinking_draws
           and ab = "(1, 1)" and sleeps = "[]" and sent = "[]", OF a b] a b c
    by (simp add: call_model_def fibo_next_def full_jitter_def shrinking_draws_def
        numeral_2_eq_2)
qed


subsection \<open>Prompts of the wrong shape\<close>

text \<open>
  Claim C5. For every name in \<^verbatim>\<open>completion_models\<close> construction succeeds, and for
  every prompt that is not a string the decorated \<^verbatim>\<open>_call_model\<close> returns the empty
  list without raising, waiting or calling the network, on the instance as constructed and
  again once its client is loaded.
\<close>

theorem completion_rejects_non_string:
  assumes "nm \<in> set completion_models" and "\<not> isinstance_str prompt"
  shows "\<exists>g g'. init ml nm c = Inr g
           \<and> call_model ml net draws prompt n g = Some (Inr [], [], [], g')
           \<and> call_model ml net draws prompt n g' = Some (Inr [], [], [], g')"
proof -
  define g2 where "g2 = (case map_of context_lengths nm of
                           Some l \<Rightarrow> c\<lparr>name := nm, context_len := Some l\<rparr>
                         | None \<Rightarrow> c\<lparr>name := nm\<rparr>)"
  define g3 where "g3 = g2\<lparr>client := Some (OpenAI (api_key g2)), generator := Some Completion\<rparr>"
  have nm: "name g2 = nm" unfolding g2_def by (simp split: option.splits)
  from assms(1) have ne: "nm \<noteq> []" unfolding completion_models_def by auto
  have load: "load_client ml g2 = (None, g3)"
    unfolding load_client_def g3_def using assms(1) ne nm by (simp add: Let_def)
  have i: "init ml nm c = Inr (clear_client g3)"
    unfolding init_def using load
    by (simp add: Let_def g2_def [symmetric] g3_def)
  have reload: "load_client ml (clear_client g3) = (None, g3)"
    unfolding load_client_def clear_client_def g3_def using assms(1) ne nm
    by (simp add: Let_def)
  have fresh: "ensure_client ml (clear_client g3) = (None, g3)"
    unfolding ensure_client_def using reload by (simp add: clear_client_def)
  have loaded: "ensure_client ml g3 = (None, g3)"
    unfolding ensure_client_def by (simp add: g3_def)
  have shape: "add_prompt g3 prompt args = None" for args
    unfolding add_prompt_def using assms(2) by (simp add: g3_def)
  have b1: "call_model_body ml oc prompt n (clear_client g3) = (Inr [], None, g3)" for oc
    unfolding call_model_body_def fresh by (simp add: shape)
  have b2: "call_model_body ml oc prompt n g3 = (Inr [], None, g3)" for oc
    unfolding call_model_body_def loaded by (simp add: shape)
  have c1: "call_model ml net draws prompt n (clear_client g3) = Some (Inr [], [], [], g3)"
    unfolding call_model_def by (subst retry.simps) (simp add: b1 list_of_option_def)
  have c2: "call_model ml net draws prompt n g3 = Some (Inr [], [], [], g3)"
    unfolding call_model_def by (subst retry.simps) (simp add: b2 list_of_option_def)
  from i c1 c2 show ?thesis by blast
qed

theorem completion_rejects_non_string_witness:
  "''davinci-002'' \<in> set completion_models \<and> \<not> isinstance_str (PyList [])
   \<and> (\<exists>g g'. init (Inr []) ''davinci-002'' default_params = Inr g
         \<and> call_model (Inr []) rate_limited_twice shrinking_draws (PyList []) (PyInt 1) g
             = Some (Inr [], [], [], g')
         \<and> call_model (Inr []) rate_limited_twice shrinking_draws (PyList []) (PyInt 1) g'
             = Some (Inr [], [], [], g'))"
proof -
  have a: "''davinci-002'' \<in> set completion_models" by (simp add: completion_models_def)
  have b: "\<not> isinstance_str (PyList [])" by simp
  show ?thesis
    using completion_rejects_non_string [OF a b] a b by simp
qed

subsection \<open>Clearing and reloading the client\<close>

text \<open>
  Claim C9. Let \<open>g\<close> be an instance whose client was loaded by \<^verbatim>\<open>_load_client\<close>.
  After \<^verbatim>\<open>_clear_client\<close> the next call reloads the client and then does exactly what the
  call on \<open>g\<close> does: one execution of the body returns the same result, the same
  keyword arguments of the network call and the same instance, and so does the whole
  decorated call.
\<close>

theorem release_acquire_same_request:
  assumes "load_client ml g0 = (None, g)"
  shows "call_model_body ml oc prompt n (clear_client g) = call_model_body ml oc prompt n g
         \<and> call_model ml net draws prompt n (clear_client g)
             = call_model ml net draws prompt n g"
proof -
  from assms obtain ep
    where g: "g = g0\<lparr>client := Some (OpenAI (api_key g0)), generator := Some ep\<rparr>"
      and route: "load_client ml (g0\<lparr>generator := None, client := None\<rparr>)
                    = (None, g0\<lparr>generator := None, client := None,
                                 client := Some (OpenAI (api_key g0)), generator := Some ep\<rparr>)"
    unfolding load_client_def by (auto simp: Let_def split: if_splits sum.splits)
  have reload: "load_client ml (clear_client g) = (None, g)"
    using route unfolding g clear_client_def by simp
  have acquire: "ensure_client ml (clear_client g) = (None, g)"
    unfolding ensure_client_def using reload by (simp add: clear_client_def)
  have kept: "ensure_client ml g = (None, g)"
    unfolding ensure_client_def by (simp add: g)
  have body: "call_model_body ml oc prompt n (clear_client g) = call_model_body ml oc prompt n g"
    for oc
    unfolding call_model_body_def acquire kept ..
  have "call_model ml net draws prompt n (clear_client g) = call_model ml net draws prompt n g"
    unfolding call_model_def
    by (subst retry.simps, subst (2) retry.simps) (simp only: body)
  with body show ?thesis by blast
qed

text \<open>
  The instance for \<^verbatim>\<open>gpt-4\<close>, cleared after its client was loaded.
\<close>

theorem release_acquire_same_request_witness:
  "load_client (Inr []) gpt4_instance = (None, snd (load_client (Inr []) gpt4_instance))
   \<and> fst (snd (call_model_body (Inr []) (Inr one_choice) (PyStr ''hi'') (PyInt 1)
             (clear_client (snd (load_client (Inr []) gpt4_instance)))))
       = fst (snd (call_model_body (Inr []) (Inr one_choice) (PyStr ''hi'') (PyInt 1)
             (snd (load_client (Inr []) gpt4_instance))))
   \<and> call_model (Inr []) rate_limited_twice shrinking_draws (PyStr ''hi'') (PyInt 1)
         (clear_client (snd (load_client (Inr []) gpt4_instance)))
       = call_model (Inr []) rate_limited_twice shrinking_draws (PyStr ''hi'') (PyInt 1)
           (snd (load_client (Inr []) gpt4_instance))"
proof -
  have a: "load_client (Inr []) gpt4_instance = (None, snd (load_client (Inr []) gpt4_instance))"
    by (simp add: load_client_def gpt4_instance_def default_params_def chat_models_def
        completion_models_def)
  show ?thesis
    using release_acquire_same_request [OF a] a by simp
qed

section \<open>Rate limits followed by a success\<close>

text \<open>
  Claim C7, amended. For every \<open>N\<close>, when the first \<open>N\<close> network calls raise a
  rate-limit fault and the next one succeeds, the decorated \<^verbatim>\<open>_call_model\<close> makes
  \<open>N + 1\<close> network calls with the same keyword arguments, waits \<open>N\<close> times and
  returns the choices of the successful response. The wait before retry \<open>k\<close> is the
  \<open>k\<close>-th value of the wait generator times the random draw of the jitter: the
  generator's values are non-decreasing and at most 70, and every wait lies between 0 and
  the generator's value, hence is at most 70.
\<close>

theorem rate_limits_then_success:
  assumes "fst (snd (call_model_body ml (net 0) prompt n g)) = Some args"
    and "\<forall>i<N. net i = Inl RateLimitError"
    and "net N = Inr cs"
    and "\<forall>i<N. 0 \<le> draws i \<and> draws i \<le> 1"
  shows "\<exists>ep sleeps g'.
           generator g' = Some ep
           \<and> call_model ml net draws prompt n g
               = Some (Inr (extract_choices ep cs), sleeps, replicate (Suc N) args, g')
           \<and> length sleeps = N
           \<and> sleeps = jittered draws 0 (fibo_waits 70 (1, 1) N)
           \<and> sorted (fibo_waits 70 (1, 1) N)
           \<and> (\<forall>k<N. fibo_waits 70 (1, 1) N ! k \<le> 70
                    \<and> 0 \<le> sleeps ! k
                    \<and> sleeps ! k \<le> real (fibo_waits 70 (1, 1) N ! k)
                    \<and> sleeps ! k \<le> 70)"
proof -
  let ?ws = "fibo_waits 70 (1, 1) N"
  let ?sleeps = "jittered draws 0 ?ws"
  from body_when_called [OF assms(1)] obtain ep
    where ep: "generator (snd (ensure_client ml g)) = Some ep" by blast
  from assms(2) have limits: "\<forall>j<N. net (0 + j) = Inl RateLimitError" by simp
  from assms(3) have ok: "net (0 + N) = Inr cs" by simp
  have run: "call_model ml net draws prompt n g
               = Some (Inr (extract_choices ep cs), ?sleeps, replicate (Suc N) args,
                       snd (ensure_client ml g))"
    unfolding call_model_def
    using retry_rate_limited [OF assms(1) ep limits ok, of draws "(1, 1)" "[]" "[]"] by simp
  have len: "length ?sleeps = N" by (simp add: length_jittered length_fibo_waits)
  have mono: "sorted ?ws" by (rule fibo_waits_sorted) simp
  have bounds: "\<forall>k<N. ?ws ! k \<le> 70 \<and> 0 \<le> ?sleeps ! k \<and> ?sleeps ! k \<le> real (?ws ! k)
                  \<and> ?sleeps ! k \<le> 70"
  proof (intro allI impI)
    fix k assume k: "k < N"
    then have kin: "?ws ! k \<in> set ?ws" by (simp add: length_fibo_waits)
    then have cap: "?ws ! k \<le> 70" by (rule fibo_waits_capped)
    from k have nth: "?sleeps ! k = full_jitter (draws (0 + k)) (?ws ! k)"
      by (intro jittered_nth) (simp add: length_fibo_waits)
    from assms(4) k have d: "0 \<le> draws k" "draws k \<le> 1" by auto
    from full_jitter_bounds [OF d, of "?ws ! k"] nth
    have j: "0 \<le> ?sleeps ! k" "?sleeps ! k \<le> real (?ws ! k)" by simp_all
    from cap have "real (?ws ! k) \<le> 70" by simp
    with j cap show "?ws ! k \<le> 70 \<and> 0 \<le> ?sleeps ! k \<and> ?sleeps ! k \<le> real (?ws ! k)
                  \<and> ?sleeps ! k \<le> 70"
      by simp
  qed
  from ep run len mono bounds show ?thesis by blast
qed

text \<open>Two rate limits, then a response.\<close>

lemma two_waits: "fibo_waits 70 (1, 1) 2 = [1, 1]"
  by (simp add: numeral_2_eq_2 fibo_next_def)

theorem rate_limits_then_success_witness:
  "fst (snd (call_model_body (Inr []) (rate_limited_twice 0) (PyStr ''hi'') (PyInt 1) gpt4_instance))
     = Some (hi_request 1)
   \<and> rate_limited_twice 0 = Inl RateLimitError \<and> rate_limited_twice 1 = Inl RateLimitError
   \<and> rate_limited_twice 2 = Inr one_choice
   \<and> 0 \<le> shrinking_draws 0 \<and> shrinking_draws 0 \<le> 1
   \<and> 0 \<le> shrinking_draws 1 \<and> shrinking_draws 1 \<le> 1
   \<and> (\<exists>ep g'. generator g' = Some ep
         \<and> call_model (Inr []) rate_limited_twice shrinking_draws (PyStr ''hi'') (PyInt 1) gpt4_instance
             = Some (Inr (extract_choices ep one_choice),
                     jittered shrinking_draws 0 [1, 1],
                     [hi_request 1, hi_request 1, hi_request 1], g'))"
proof -
  have a: "fst (snd (call_model_body (Inr []) (rate_limited_twice 0) (PyStr ''hi'') (PyInt 1)
              gpt4_instance)) = Some (hi_request 1)"
    by (rule example_request)
  have b: "\<forall>i<2. rate_limited_twice i = Inl RateLimitError"
    by (simp add: rate_limited_twice_def)
  have c: "rate_limited_twice 2 = Inr one_choice"
    by (simp add: rate_limited_twice_def)
  have d: "\<forall>i<2. 0 \<le> shrinking_draws i \<and> shrinking_draws i \<le> 1"
    by (simp add: shrinking_draws_def)
  from rate_limits_then_success
         [where net = rate_limited_twice and N = 2 and draws = shrinking_draws, OF a b c d]
  obtain ep g' where "generator g' = Some ep"
    and "call_model (Inr []) rate_limited_twice shrinking_draws (PyStr ''hi'') (PyInt 1) gpt4_instance
           = Some (Inr (extract_choices ep one_choice),
                   jittered shrinking_draws 0 (fibo_waits 70 (1, 1) 2),
                   replicate (Suc 2) (hi_request 1), g')"
    by blast
  then have run: "\<exists>ep g'. generator g' = Some ep
         \<and> call_model (Inr []) rate_limited_twice shrinking_draws (PyStr ''hi'') (PyInt 1) gpt4_instance
             = Some (Inr (extract_choices ep one_choice),
                     jittered shrinking_draws 0 [1, 1],
                     [hi_request 1, hi_request 1, hi_request 1], g')"
    unfolding two_waits by (simp add: numeral_2_eq_2)
  have scripted: "rate_limited_twice 0 = Inl RateLimitError"
    "rate_limited_twice 1 = Inl RateLimitError"
    by (simp_all add: rate_limited_twice_def)
  have drawn: "0 \<le> shrinking_draws 0" "shrinking_draws 0 \<le> 1"
    "0 \<le> shrinking_draws 1" "shrinking_draws 1 \<le> 1"
    by (simp_all add: shrinking_draws_def)
  from a scripted c drawn run show ?thesis by blast
qed

lemma example_sleeps: "jittered shrinking_draws 0 [1, 1] = [1 / 2, 1 / 4]"
  by (simp add: jittered_Cons jittered_Nil full_jitter_def shrinking_draws_def)

text \<open>
  Claim C7 as stated fails: the decorator keeps the library's default jitter, so the
  durations slept are random fractions of the generator's values and can decrease. Here the
  two waits are 1/2 and 1/4.
\<close>

theorem waits_not_monotone_counterexample:
  "map_option (fst \<circ> snd)
     (call_model (Inr []) rate_limited_twice shrinking_draws (PyStr ''hi'') (PyInt 1) gpt4_instance)
     = Some [1 / 2, 1 / 4]
   \<and> \<not> sorted [1 / 2, 1 / 4 :: real]"
proof -
  have a: "fst (snd (call_model_body (Inr []) (Inr []) (PyStr ''hi'') (PyInt 1) gpt4_instance))
             = Some (hi_request 1)"
    by (rule example_request)
  have b: "\<forall>j<2. rate_limited_twice (0 + j) = Inl RateLimitError"
    by (simp add: rate_limited_twice_def)
  have c: "rate_limited_twice (0 + 2) = Inr one_choice"
    by (simp add: rate_limited_twice_def)
  have "call_model (Inr []) rate_limited_twice shrinking_draws (PyStr ''hi'') (PyInt 1) gpt4_instance
          = Some (Inr (extract_choices Chat one_choice),
                  [] @ jittered shrinking_draws 0 (fibo_waits 70 (1, 1) 2),
                  [] @ replicate (Suc 2) (hi_request 1),
                  snd (ensure_client (Inr []) gpt4_instance))"
    unfolding call_model_def by (rule retry_rate_limited [OF a example_loaded b c])
  then have "map_option (fst \<circ> snd)
      (call_model (Inr []) rate_limited_twice shrinking_draws (PyStr ''hi'') (PyInt 1) gpt4_instance)
      = Some [1 / 2, 1 / 4]"
    unfolding two_waits example_sleeps by simp
  moreover have "\<not> sorted [1 / 2, 1 / 4 :: real]"
    by (simp del: sorted_wrt.simps add: sorted2)
  ultimately show ?thesis by blast
qed

section \<open>Filtering the keyword arguments\<close>

lemma filter_dict_set:
  "key \<noteq> k \<Longrightarrow>
     filter (\<lambda>(k', v). k' \<noteq> k) (dict_set key v args)
       = dict_set key v (filter (\<lambda>(k', v). k' \<noteq> k) args)"
  by (induction args) auto

lemma map_of_dict_set: "key \<noteq> k \<Longrightarrow> map_of (dict_set key v args) k = map_of args k"
  by (induction args) auto

lemma map_of_filter_distinct:
  "distinct (map fst xs) \<Longrightarrow>
     map_of (filter P xs) k
       = (case map_of xs k of None \<Rightarrow> None | Some v \<Rightarrow> if P (k, v) then Some v else None)"
proof (induction xs)
  case Nil
  show ?case by simp
next
  case (Cons x xs)
  obtain a b where x: "x = (a, b)" by (cases x)
  show ?case
  proof (cases "a = k")
    case True
    with Cons.prems x have "k \<notin> fst ` set xs" by auto
    then have "k \<notin> fst ` set (filter P xs)" by auto
    then have "map_of (filter P xs) k = None" by (simp add: map_of_eq_None_iff)
    with True x show ?thesis by simp
  next
    case False
    with Cons x show ?thesis by simp
  qed
qed

lemma add_prompt_same_generator:
  "generator g' = generator g \<Longrightarrow> add_prompt g' prompt args = add_prompt g prompt args"
  unfolding add_prompt_def by simp

lemma add_prompt_filter:
  assumes "k \<noteq> ''prompt''" and "k \<noteq> ''messages''"
  shows "add_prompt g prompt (filter (\<lambda>(k', v). k' \<noteq> k) args)
           = map_option (filter (\<lambda>(k', v). k' \<noteq> k)) (add_prompt g prompt args)"
  using assms unfolding add_prompt_def by (simp add: filter_dict_set)

lemma map_of_add_prompt:
  assumes "add_prompt g prompt xs = Some args" and "k \<noteq> ''prompt''" and "k \<noteq> ''messages''"
  shows "map_of args k = map_of xs k"
  using assms unfolding add_prompt_def
  by (auto simp: map_of_dict_set split: if_splits)

lemma filter_args_insert:
  "filter_args (g\<lparr>suppressed_params := insert k (suppressed_params g)\<rparr>) args
     = filter (\<lambda>(k', v). k' \<noteq> k) (filter_args g args)"
  unfolding filter_args_def by (auto intro: filter_cong)

lemma ensure_client_suppressed:
  "fst (ensure_client ml (g\<lparr>suppressed_params := S\<rparr>)) = fst (ensure_client ml g)"
  "generator (snd (ensure_client ml (g\<lparr>suppressed_params := S\<rparr>)))
     = generator (snd (ensure_client ml g))"
  unfolding ensure_client_def load_client_def by (simp_all add: Let_def split: sum.splits)

lemma create_args_suppressed: "create_args (g\<lparr>suppressed_params := S\<rparr>) n = create_args g n"
  unfolding create_args_def by simp

text \<open>
  Claim C6. For each of the six sampling keys, the keyword arguments of the network call
  made with the key added to \<^verbatim>\<open>suppressed_params\<close> are those made without it, with
  the entries of that key removed and every other entry unchanged, in the same order; a
  call that is not made stays unmade.
\<close>

theorem suppressing_removes_only_that_key:
  assumes "k \<in> {''temperature'', ''top_p'', ''frequency_penalty'', ''presence_penalty'',
                 ''seed'', ''stop''}"
  shows "fst (snd (call_model_body ml oc prompt n
                     (g\<lparr>suppressed_params := insert k (suppressed_params g)\<rparr>)))
           = map_option (filter (\<lambda>(k', v). k' \<noteq> k))
               (fst (snd (call_model_body ml oc prompt n g)))"
proof -
  let ?g = "g\<lparr>suppressed_params := insert k (suppressed_params g)\<rparr>"
  from assms have k: "k \<noteq> ''prompt''" "k \<noteq> ''messages''" by auto
  have gen: "generator (snd (ensure_client ml ?g)) = generator (snd (ensure_client ml g))"
    by (rule ensure_client_suppressed)
  have err: "fst (ensure_client ml ?g) = fst (ensure_client ml g)"
    by (rule ensure_client_suppressed)
  have args: "add_prompt (snd (ensure_client ml ?g)) prompt (filter_args ?g (create_args ?g n))
                = map_option (filter (\<lambda>(k', v). k' \<noteq> k))
                    (add_prompt (snd (ensure_client ml g)) prompt
                       (filter_args g (create_args g n)))"
    by (simp only: create_args_suppressed filter_args_insert add_prompt_filter [OF k]
        add_prompt_same_generator [OF gen])
  show ?thesis
    unfolding body_unfolded err args gen
    by (simp split: option.splits)
qed

theorem suppressing_removes_only_that_key_witness:
  "''temperature'' \<in> {''temperature'', ''top_p'', ''frequency_penalty'', ''presence_penalty'',
                        ''seed'', ''stop''}
   \<and> fst (snd (call_model_body (Inr []) (Inr one_choice) (PyStr ''hi'') (PyInt 1)
             (gpt4_instance\<lparr>suppressed_params := {''temperature''}\<rparr>)))
       = Some [(''model'', PyStr ''gpt-4''), (''max_tokens'', PyInt 150), (''n'', PyInt 1),
               (''top_p'', PyFloat 1.0), (''frequency_penalty'', PyFloat 0.0),
               (''presence_penalty'', PyFloat 0.0),
               (''stop'', PyList [PyStr ''#'', PyStr '';'']),
               (''messages'',
                PyList [PyDict [(''role'', PyStr ''user''), (''content'', PyStr ''hi'')]])]"
proof -
  have a: "''temperature'' \<in> {''temperature'', ''top_p'', ''frequency_penalty'',
             ''presence_penalty'', ''seed'', ''stop''}"
    by simp
  have s: "suppressed_params gpt4_instance = {}"
    by (simp add: gpt4_instance_def default_params_def)
  show ?thesis
    using suppressing_removes_only_that_key
            [OF a, of "Inr []" "Inr one_choice" "PyStr ''hi''" "PyInt 1" gpt4_instance]
    by (simp add: s example_request hi_request_def)
qed

text \<open>
  Claim C10. The filter runs over all nine entries of the dict literal. For each of the
  nine keys, \<^verbatim>\<open>model\<close>, \<^verbatim>\<open>max_tokens\<close> and \<^verbatim>\<open>n\<close> among them, the keyword
  arguments of the network call have no entry for the key when it is in
  \<^verbatim>\<open>suppressed_params\<close> or its value is \<^verbatim>\<open>None\<close>, and carry its value otherwise.
\<close>

theorem filtering_applies_to_every_key:
  assumes "fst (snd (call_model_body ml oc prompt n g)) = Some args"
    and "k \<in> {''model'', ''max_tokens'', ''n'', ''temperature'', ''top_p'',
               ''frequency_penalty'', ''presence_penalty'', ''stop'', ''seed''}"
  shows "map_of args k =
           (if k \<in> suppressed_params g \<or> map_of (create_args g n) k = Some PyNone then None
            else map_of (create_args g n) k)"
proof -
  from assms(1) have ap: "add_prompt (snd (ensure_client ml g)) prompt
                            (filter_args g (create_args g n)) = Some args"
    unfolding body_request_iff by blast
  from assms(2) have k: "k \<noteq> ''prompt''" "k \<noteq> ''messages''" by auto
  have d: "distinct (map fst (create_args g n))" unfolding create_args_def by simp
  have "map_of args k = map_of (filter_args g (create_args g n)) k"
    by (rule map_of_add_prompt [OF ap k])
  also have "\<dots> = (case map_of (create_args g n) k of
                      None \<Rightarrow> None
                    | Some v \<Rightarrow> if v \<noteq> PyNone \<and> k \<notin> suppressed_params g then Some v else None)"
    unfolding filter_args_def
    by (simp add: map_of_filter_distinct [OF d] split: option.splits)
  also have "\<dots> = (if k \<in> suppressed_params g \<or> map_of (create_args g n) k = Some PyNone then None
            else map_of (create_args g n) k)"
    by (simp split: option.splits)
  finally show ?thesis .
qed

theorem filtering_applies_to_every_key_witness:
  "fst (snd (call_model_body (Inr []) (Inr one_choice) (PyStr ''hi'') PyNone
          (gpt4_instance\<lparr>suppressed_params := {''model''}, max_tokens := PyNone\<rparr>)))
     = Some [(''temperature'', PyFloat 0.7), (''top_p'', PyFloat 1.0),
             (''frequency_penalty'', PyFloat 0.0), (''presence_penalty'', PyFloat 0.0),
             (''stop'', PyList [PyStr ''#'', PyStr '';'']),
             (''messages'',
              PyList [PyDict [(''role'', PyStr ''user''), (''content'', PyStr ''hi'')]])]
   \<and> ''max_tokens'' \<in> {''model'', ''max_tokens'', ''n'', ''temperature'', ''top_p'',
               ''frequency_penalty'', ''presence_penalty'', ''stop'', ''seed''}
   \<and> map_of [(''temperature'', PyFloat 0.7), (''top_p'', PyFloat 1.0),
             (''frequency_penalty'', PyFloat 0.0), (''presence_penalty'', PyFloat 0.0),
             (''stop'', PyList [PyStr ''#'', PyStr '';'']),
             (''messages'',
              PyList [PyDict [(''role'', PyStr ''user''), (''content'', PyStr ''hi'')]])]
         ''max_tokens'' = None"
proof -
  have a: "fst (snd (call_model_body (Inr []) (Inr one_choice) (PyStr ''hi'') PyNone
          (gpt4_instance\<lparr>suppressed_params := {''model''}, max_tokens := PyNone\<rparr>)))
     = Some [(''temperature'', PyFloat 0.7), (''top_p'', PyFloat 1.0),
             (''frequency_penalty'', PyFloat 0.0), (''presence_penalty'', PyFloat 0.0),
             (''stop'', PyList [PyStr ''#'', PyStr '';'']),
             (''messages'',
              PyList [PyDict [(''role'', PyStr ''user''), (''content'', PyStr ''hi'')]])]"
    by (simp add: example_defs)
  have b: "''max_tokens'' \<in> {''model'', ''max_tokens'', ''n'', ''temperature'', ''top_p'',
               ''frequency_penalty'', ''presence_penalty'', ''stop'', ''seed''}"
    by simp
  show ?thesis
    using filtering_applies_to_every_key [OF a b] a b
    by (simp add: create_args_def gpt4_instance_def default_params_def)
qed

end
